theory Spec2Isabelle
  imports Main
begin

section \<open>Data model (lib/config.ts)\<close>

text \<open>
  The \<^verbatim>\<open>Worker\<close> and \<^verbatim>\<open>State\<close> interfaces of \<^verbatim>\<open>config.ts\<close>. Optional fields
  (\<^verbatim>\<open>pid?\<close>, \<^verbatim>\<open>terminalTab?\<close>, \<^verbatim>\<open>itermWindowId?\<close>) are options, \<open>None\<close> standing for
  \<^verbatim>\<open>undefined\<close>. The field \<^verbatim>\<open>id\<close> is called \<open>id_w\<close>, since \<open>id\<close> is the identity
  function of HOL. JavaScript numbers are modelled as \<open>int\<close>: every number the program
  computes is an integer far below \<open>2^53\<close>, where the arithmetic of doubles is exact.
\<close>

datatype status = SettingUp | Running | Stopped | Failed

record Worker =
  id_w :: string
  name :: string
  repoUrl :: string
  repoName :: string
  branch :: string
  task :: string
  directory :: string
  port :: int
  pid :: "int option"
  terminalTab :: "string option"
  createdAt :: string
  status :: status

record State =
  workers :: "Worker list"
  nextPortOffset :: int
  itermWindowId :: "string option"

definition basePort :: int where
  "basePort = 3100"

definition portIncrement :: int where
  "portIncrement = 10"

definition DEFAULT_STATE :: State where
  "DEFAULT_STATE = \<lparr>workers = [], nextPortOffset = 0, itermWindowId = None\<rparr>"

section \<open>The persisted registry (lib/workers.ts)\<close>

subsection \<open>\<^verbatim>\<open>loadState\<close> on any store\<close>

text \<open>
  What can be at \<^verbatim>\<open>CONFIG.stateFile\<close>: nothing (\<^verbatim>\<open>existsSync\<close> is false), or a file, which
  can be read or not (\<^verbatim>\<open>readFileSync\<close> throws) and holds a text. \<^verbatim>\<open>JSON.parse\<close> rejects the
  text (it throws), or gives a value: a state, or some other JSON value (\<^verbatim>\<open>null\<close>, a
  number, an object without the fields of a state). \<^verbatim>\<open>loadState\<close> returns what
  \<^verbatim>\<open>JSON.parse\<close> gives, without looking at it; its return type \<^verbatim>\<open>State\<close> is not checked
  when the program runs.
\<close>

datatype json =
    JNull
  | JBool bool
  | JNumber int
  | JString string
  | JArray "json list"
  | JObject "(string \<times> json) list"

datatype fileText = NotJson | StateJson State | OtherJson json

datatype store = Absent | Present bool fileText

datatype loaded = AsState State | AsJson json

datatype exn = ReadError | SyntaxError

text \<open>
  The copy \<^verbatim>\<open>{ ...DEFAULT_STATE }\<close> has the fields of \<^verbatim>\<open>DEFAULT_STATE\<close>; its \<^verbatim>\<open>workers\<close> is the
  array of \<^verbatim>\<open>DEFAULT_STATE\<close> itself, not a copy of it. \<open>dw\<close> is what that array holds when
  \<^verbatim>\<open>loadState\<close> is called: nothing when the process starts, and the workers that
  \<^verbatim>\<open>addWorker\<close> has pushed onto such a copy since.
\<close>

definition defaultCopy :: "Worker list \<Rightarrow> State" where
  "defaultCopy dw = DEFAULT_STATE\<lparr>workers := dw\<rparr>"

text \<open>The body of the \<^verbatim>\<open>try\<close> block: \<open>Inl\<close> is a thrown exception, \<open>Inr None\<close> falls
  through the \<^verbatim>\<open>if\<close>, \<open>Inr (Some v)\<close> is the \<^verbatim>\<open>return\<close> inside it.\<close>

fun loadState_raw_try :: "store \<Rightarrow> exn + loaded option" where
  "loadState_raw_try Absent = Inr None"
| "loadState_raw_try (Present False txt) = Inl ReadError"
| "loadState_raw_try (Present True NotJson) = Inl SyntaxError"
| "loadState_raw_try (Present True (StateJson s)) = Inr (Some (AsState s))"
| "loadState_raw_try (Present True (OtherJson v)) = Inr (Some (AsJson v))"

text \<open>\<^verbatim>\<open>loadState\<close> with its \<^verbatim>\<open>catch\<close>; a result \<open>Inl e\<close> would be an exception that
  leaves the function.\<close>

definition loadState_raw :: "Worker list \<Rightarrow> store \<Rightarrow> exn + loaded" where
  "loadState_raw dw st =
     (case loadState_raw_try st of
        Inr (Some v) \<Rightarrow> Inr v
      | Inr None \<Rightarrow> Inr (AsState (defaultCopy dw))
      | Inl e \<Rightarrow> Inr (AsState (defaultCopy dw)))"

subsection \<open>The registry on stores that hold states\<close>

text \<open>
  The commands are modelled on the stores a run of the program leaves: no file, a file
  that cannot be read, a file whose text is not JSON, or a file holding the JSON text of
  a state. \<^verbatim>\<open>saveState\<close> writes \<^verbatim>\<open>JSON.stringify(state)\<close>, and parsing that text gives the
  state back, so a saved file is \<open>Stored state\<close>. Writes are taken to succeed, and a
  file that was written can be read; then \<^verbatim>\<open>addWorker\<close>, which extends the array of
  \<^verbatim>\<open>DEFAULT_STATE\<close> when it pushes onto a default copy, has saved the state before the
  next \<^verbatim>\<open>loadState\<close>, which reads the file, and \<open>loadState\<close> below takes
  \<open>DEFAULT_STATE\<close> as it is when the process starts. \<open>storeOf\<close> gives the store that a
  \<open>stateFile\<close> stands for.
\<close>

datatype stateFile = Missing | Unreadable | Corrupt | Stored State

fun storeOf :: "stateFile \<Rightarrow> store" where
  "storeOf Missing = Absent"
| "storeOf Unreadable = Present False NotJson"
| "storeOf Corrupt = Present True NotJson"
| "storeOf (Stored s) = Present True (StateJson s)"

text \<open>The body of the \<^verbatim>\<open>try\<close> block of \<^verbatim>\<open>loadState\<close>: \<open>Inl\<close> is a thrown exception,
  \<open>Inr None\<close> falls through the \<^verbatim>\<open>if\<close>, \<open>Inr (Some s)\<close> is the \<^verbatim>\<open>return\<close> inside it.\<close>

fun loadState_try :: "stateFile \<Rightarrow> exn + State option" where
  "loadState_try Missing = Inr None"
| "loadState_try Unreadable = Inl ReadError"
| "loadState_try Corrupt = Inl SyntaxError"
| "loadState_try (Stored s) = Inr (Some s)"

definition loadState :: "stateFile \<Rightarrow> State" where
  "loadState file =
     (case loadState_try file of
        Inr (Some s) \<Rightarrow> s
      | Inr None \<Rightarrow> DEFAULT_STATE
      | Inl e \<Rightarrow> DEFAULT_STATE)"

definition saveState :: "State \<Rightarrow> stateFile" where
  "saveState state = Stored state"

definition addWorker :: "Worker \<Rightarrow> stateFile \<Rightarrow> stateFile" where
  "addWorker worker file =
     (let state = loadState file;
          state1 = state\<lparr>workers := workers state @ [worker]\<rparr>;
          state2 = state1\<lparr>nextPortOffset := nextPortOffset state1 + 1\<rparr>
      in saveState state2)"

text \<open>The predicate \<^verbatim>\<open>(w) => w.name === nameOrId || w.id === nameOrId\<close>.\<close>

definition matches :: "string \<Rightarrow> Worker \<Rightarrow> bool" where
  "matches nameOrId w \<longleftrightarrow> name w = nameOrId \<or> id_w w = nameOrId"

text \<open>\<^verbatim>\<open>Array.prototype.findIndex\<close>; \<open>None\<close> is the result \<^verbatim>\<open>-1\<close>.\<close>

fun findIndex :: "('a \<Rightarrow> bool) \<Rightarrow> 'a list \<Rightarrow> nat option" where
  "findIndex P [] = None"
| "findIndex P (x # xs) =
     (if P x then Some 0 else map_option Suc (findIndex P xs))"

text \<open>\<^verbatim>\<open>removeWorker\<close> returns the removed record (\<open>None\<close> is \<^verbatim>\<open>undefined\<close>) and the
  file as it is afterwards. \<^verbatim>\<open>splice(index, 1)\<close> deletes the element at \<open>index\<close>.\<close>

definition removeWorker :: "string \<Rightarrow> stateFile \<Rightarrow> Worker option \<times> stateFile" where
  "removeWorker nameOrId file =
     (let state = loadState file
      in case findIndex (matches nameOrId) (workers state) of
           None \<Rightarrow> (None, file)
         | Some index \<Rightarrow>
             (Some (workers state ! index),
              saveState (state\<lparr>workers := take index (workers state)
                                            @ drop (Suc index) (workers state)\<rparr>)))"

definition getWorker :: "string \<Rightarrow> stateFile \<Rightarrow> Worker option" where
  "getWorker nameOrId file = find (matches nameOrId) (workers (loadState file))"

definition getAllWorkers :: "stateFile \<Rightarrow> Worker list" where
  "getAllWorkers file = workers (loadState file)"

text \<open>\<^verbatim>\<open>updateWorkerStatus\<close> changes the first matching record in place. The optional
  \<^verbatim>\<open>updates\<close> object, applied with \<^verbatim>\<open>Object.assign\<close>, is a function on the record.\<close>

fun updateFirst :: "('a \<Rightarrow> bool) \<Rightarrow> ('a \<Rightarrow> 'a) \<Rightarrow> 'a list \<Rightarrow> 'a list" where
  "updateFirst P f [] = []"
| "updateFirst P f (x # xs) = (if P x then f x # xs else x # updateFirst P f xs)"

definition updateWorkerStatus ::
  "string \<Rightarrow> status \<Rightarrow> (Worker \<Rightarrow> Worker) option \<Rightarrow> stateFile \<Rightarrow> stateFile" where
  "updateWorkerStatus nameOrId st updates file =
     (let state = loadState file
      in case find (matches nameOrId) (workers state) of
           None \<Rightarrow> file
         | Some worker \<Rightarrow>
             saveState (state\<lparr>workers :=
               updateFirst (matches nameOrId)
                 (\<lambda>w. (case updates of None \<Rightarrow> (\<lambda>v. v) | Some u \<Rightarrow> u) (w\<lparr>status := st\<rparr>))
                 (workers state)\<rparr>))"

definition getNextPort :: "stateFile \<Rightarrow> int" where
  "getNextPort file = basePort + nextPortOffset (loadState file) * portIncrement"

definition getItermWindowId :: "stateFile \<Rightarrow> string option" where
  "getItermWindowId file = itermWindowId (loadState file)"

definition setItermWindowId :: "string \<Rightarrow> stateFile \<Rightarrow> stateFile" where
  "setItermWindowId windowId file = saveState ((loadState file)\<lparr>itermWindowId := Some windowId\<rparr>)"

definition clearItermWindowId :: "stateFile \<Rightarrow> stateFile" where
  "clearItermWindowId file = saveState ((loadState file)\<lparr>itermWindowId := None\<rparr>)"

section \<open>Names, branches and repository names (lib/workers.ts)\<close>

text \<open>The decimal text of a number, as a template literal renders an integer.\<close>

definition digitChar :: "nat \<Rightarrow> char" where
  "digitChar d = ''0123456789'' ! d"

fun natToString :: "nat \<Rightarrow> string" where
  "natToString n =
     (if n < 10 then [digitChar n] else natToString (n div 10) @ [digitChar (n mod 10)])"

declare natToString.simps [simp del]

definition numberToString :: "int \<Rightarrow> string" where
  "numberToString i = (if i < 0 then CHR ''-'' # natToString (nat (- i)) else natToString (nat i))"

definition adjectives :: "string list" where
  "adjectives =
     [''swift'', ''brave'', ''calm'', ''bright'', ''bold'', ''keen'', ''wise'', ''quick'',
      ''sharp'', ''cool'', ''warm'', ''fair'', ''pure'', ''true'', ''kind'', ''proud'']"

definition animals :: "string list" where
  "animals =
     [''fox'', ''owl'', ''eagle'', ''wolf'', ''bear'', ''hawk'', ''deer'', ''lion'',
      ''tiger'', ''raven'', ''falcon'', ''panther'', ''jaguar'', ''leopard'', ''lynx'', ''otter'']"

text \<open>
  The two random indices of the \<open>i\<close>-th attempt are given by \<open>draw i\<close>;
  \<^verbatim>\<open>Math.floor(Math.random() * adjectives.length)\<close> is an index below the length of the
  list, which the model obtains by reducing the drawn number modulo that length.
  \<open>candidate\<close> is the template literal \<^verbatim>\<open>`${adj}-${animal}`\<close>.
\<close>

definition candidate :: "nat \<times> nat \<Rightarrow> string" where
  "candidate d =
     adjectives ! (fst d mod length adjectives) @ ''-'' @ animals ! (snd d mod length animals)"

text \<open>The \<^verbatim>\<open>for\<close> loop of \<^verbatim>\<open>generateWorkerName\<close> from attempt \<open>i\<close> on, followed by the
  fallback \<^verbatim>\<open>`worker-${Date.now()}`\<close>; \<open>now\<close> is the value of \<^verbatim>\<open>Date.now()\<close>.\<close>

function generateWorkerName_from ::
  "(nat \<Rightarrow> nat \<times> nat) \<Rightarrow> int \<Rightarrow> string list \<Rightarrow> nat \<Rightarrow> string" where
  "generateWorkerName_from draw now existingNames i =
     (if i < 100 then
        (if candidate (draw i) \<notin> set existingNames then candidate (draw i)
         else generateWorkerName_from draw now existingNames (Suc i))
      else ''worker-'' @ numberToString now)"
  by pat_completeness auto
termination
  by (relation "measure (\<lambda>(draw, now, existingNames, i). 100 - i)") simp_all

declare generateWorkerName_from.simps [simp del]

definition generateWorkerName :: "(nat \<Rightarrow> nat \<times> nat) \<Rightarrow> int \<Rightarrow> string list \<Rightarrow> string" where
  "generateWorkerName draw now existingNames = generateWorkerName_from draw now existingNames 0"

text \<open>
  \<^verbatim>\<open>getRepoName\<close>: the regular expression \<^verbatim>\<open>/\/([^/]+?)(\.git)?$/\<close> can only match at the
  last slash, with a non-empty rest; the lazy group gives up a trailing \<^verbatim>\<open>.git\<close> when
  something is left in front of it.
\<close>

definition lastSegment :: "string \<Rightarrow> string" where
  "lastSegment s = rev (takeWhile (\<lambda>c. c \<noteq> CHR ''/'') (rev s))"

definition getRepoName :: "string \<Rightarrow> string" where
  "getRepoName url =
     (let seg = lastSegment url
      in if CHR ''/'' \<notin> set url \<or> seg = [] then ''repo''
         else if 4 < length seg \<and> drop (length seg - 4) seg = ''.git''
              then take (length seg - 4) seg
         else seg)"

text \<open>
  \<^verbatim>\<open>generateBranchName\<close>. \<open>toLowerCase\<close> maps the letters A to Z to a to z; every other
  character of the model's 8-bit alphabet lies outside \<^verbatim>\<open>[a-z0-9]\<close> before and after
  lower-casing. \<open>replaceRuns\<close> is \<^verbatim>\<open>.replace(/[^a-z0-9]+/g, "-")\<close>: each maximal run of
  characters outside the class becomes one hyphen. \<open>stripHyphens\<close> is
  \<^verbatim>\<open>.replace(/^-|-$/g, "")\<close>: one hyphen at the start and one at the end are deleted.
\<close>

definition toLowerChar :: "char \<Rightarrow> char" where
  "toLowerChar c =
     (case map_of (zip ''ABCDEFGHIJKLMNOPQRSTUVWXYZ'' ''abcdefghijklmnopqrstuvwxyz'') c of
        None \<Rightarrow> c
      | Some l \<Rightarrow> l)"

definition toLowerCase :: "string \<Rightarrow> string" where
  "toLowerCase s = map toLowerChar s"

definition isLowerAlnum :: "char \<Rightarrow> bool" where
  "isLowerAlnum c \<longleftrightarrow>
     (97 \<le> (of_char c :: nat) \<and> (of_char c :: nat) \<le> 122)
     \<or> (48 \<le> (of_char c :: nat) \<and> (of_char c :: nat) \<le> 57)"

function replaceRuns :: "string \<Rightarrow> string" where
  "replaceRuns [] = []"
| "replaceRuns (c # cs) =
     (if isLowerAlnum c then c # replaceRuns cs
      else CHR ''-'' # replaceRuns (dropWhile (\<lambda>d. \<not> isLowerAlnum d) cs))"
  by pat_completeness auto
termination
  by (relation "measure length") (simp_all add: le_imp_less_Suc length_dropWhile_le)

definition stripHyphens :: "string \<Rightarrow> string" where
  "stripHyphens s =
     (let s1 = (case s of [] \<Rightarrow> [] | c # cs \<Rightarrow> if c = CHR ''-'' then cs else s)
      in if s1 \<noteq> [] \<and> last s1 = CHR ''-'' then butlast s1 else s1)"

definition slug :: "string \<Rightarrow> string" where
  "slug t = stripHyphens (take 40 (replaceRuns (toLowerCase t)))"

text \<open>\<open>isoText\<close> is the text of \<^verbatim>\<open>new Date().toISOString()\<close>; the date is
  \<^verbatim>\<open>.slice(0, 10).replace(/-/g, "")\<close>.\<close>

definition dateStamp :: "string \<Rightarrow> string" where
  "dateStamp isoText = filter (\<lambda>c. c \<noteq> CHR ''-'') (take 10 isoText)"

definition generateBranchName :: "string \<Rightarrow> string \<Rightarrow> string \<Rightarrow> string" where
  "generateBranchName isoText t workerName =
     ''feat/'' @ slug t @ ''-'' @ workerName @ ''-'' @ dateStamp isoText"

section \<open>External effects\<close>

text \<open>
  The calls the commands make to the terminal and the file system, and the lines they
  print, recorded in the order in which they are made. \<open>Sleep n\<close> is the
  \<^verbatim>\<open>setTimeout\<close> promise of \<open>n\<close> milliseconds. A call that throws is recorded as well:
  it was made.
\<close>

datatype action =
    EnsureItermRunning
  | OpenWorkerTab string string "string option" string string bool
  | SendToItermSession string string
  | Sleep nat
  | CloseItermTab string
  | RmSync string
  | RmRf string
  | LogNoWorkers
  | LogWillRemove nat
  | LogWorker string string
  | LogRunWithForce
  | LogCleaned nat
  | LogCleanedFailed nat nat
  | LogUsage
  | LogNotFound string

text \<open>How a command ends: it returns, or it calls \<^verbatim>\<open>process.exit(1)\<close>.\<close>

datatype outcome = Returned | Exited

section \<open>Spawning workers (commands/spawn.ts)\<close>

text \<open>
  The interface \<^verbatim>\<open>SpawnOptions\<close>; its fields carry the suffix \<open>_opt\<close>, the names
  \<open>task\<close>, \<open>branch\<close>, \<open>port\<close> and \<open>name\<close> being fields of \<open>Worker\<close>. An absent
  \<^verbatim>\<open>noDev\<close> is \<open>False\<close>.
\<close>

record SpawnOptions =
  task_opt :: "string list"
  branch_opt :: "string option"
  port_opt :: "int option"
  noDev_opt :: bool
  name_opt :: "string option"

text \<open>
  What one run of \<^verbatim>\<open>spawnSingleWorker\<close> gets from outside the program: the random
  indices and the clock value for the name, the result of \<^verbatim>\<open>nanoid(10)\<close>, the two
  \<^verbatim>\<open>toISOString()\<close> texts, \<^verbatim>\<open>CONFIG.workersDir\<close>, whether the worker directory exists
  already, whether one of the steps between creating the directory and installing the
  dependencies throws, whether \<^verbatim>\<open>bun.lockb\<close> is there when the dev command is built,
  whether \<^verbatim>\<open>ensureItermRunning\<close> throws, and what \<^verbatim>\<open>openWorkerTab\<close> returns (\<open>None\<close>: it
  throws).
\<close>

record spawnEnv =
  draw :: "nat \<Rightarrow> nat \<times> nat"
  now :: int
  nanoid :: string
  isoBranch :: string
  isoCreated :: string
  workersDir :: string
  workerDirExists :: bool
  setupThrows :: bool
  bunLock :: bool
  ensureItermThrows :: bool
  openWorkerTabResult :: "string option"

text \<open>The worker record built at lines 51 to 58 and 138 to 149 of \<^verbatim>\<open>spawn.ts\<close>.\<close>

definition newWorker :: "spawnEnv \<Rightarrow> string \<Rightarrow> string \<Rightarrow> SpawnOptions \<Rightarrow> stateFile \<Rightarrow> Worker" where
  "newWorker env url t options file =
     (let existingNames = map name (getAllWorkers file);
          workerName = generateWorkerName (draw env) (now env) existingNames;
          workerId = nanoid env;
          repoName' = getRepoName url;
          port' = getNextPort file;
          branchName =
            (case branch_opt options of
               None \<Rightarrow> generateBranchName (isoBranch env) t workerName
             | Some b \<Rightarrow> if b \<noteq> [] then b
                         else generateBranchName (isoBranch env) t workerName);
          workerDir = workersDir env @ ''/'' @ workerName
      in \<lparr>id_w = workerId, name = workerName, repoUrl = url, repoName = repoName',
          branch = branchName, task = t, directory = workerDir, port = port',
          pid = None, terminalTab = None, createdAt = isoCreated env,
          status = SettingUp\<rparr>)"

definition devCommand :: "spawnEnv \<Rightarrow> SpawnOptions \<Rightarrow> int \<Rightarrow> string option" where
  "devCommand env options p =
     (if \<not> noDev_opt options then
        (if bunLock env then Some (''bun run dev --port '' @ numberToString p)
         else Some (''npm run dev -- --port '' @ numberToString p))
      else None)"

definition spawnSingleWorker ::
  "spawnEnv \<Rightarrow> string \<Rightarrow> string \<Rightarrow> SpawnOptions \<Rightarrow> bool \<Rightarrow> stateFile
     \<Rightarrow> outcome \<times> stateFile \<times> action list" where
  "spawnSingleWorker env url t options isFirstInBatch file =
     (let worker = newWorker env url t options file
      in if workerDirExists env then (Exited, file, [])
         else if setupThrows env then (Exited, file, [])
         else
           (let isFirstWorker = (getAllWorkers file = []);
                file1 = addWorker worker file
            in if ensureItermThrows env then (Exited, file1, [EnsureItermRunning])
               else
                 (let call = OpenWorkerTab (name worker) (directory worker)
                               (devCommand env options (port worker))
                               ''claude --dangerously-skip-permissions''
                               (''Always make sure to follow CLAUDE.md before starting. Task: '' @ t)
                               isFirstWorker
                  in case openWorkerTabResult env of
                       None \<Rightarrow> (Exited, file1, [EnsureItermRunning, call])
                     | Some windowId \<Rightarrow>
                         (Returned,
                          updateWorkerStatus (name worker) Running
                            (Some (\<lambda>w. w\<lparr>terminalTab := Some windowId\<rparr>)) file1,
                          [EnsureItermRunning, call]))))"

text \<open>The loop of \<^verbatim>\<open>spawn\<close> over the tasks, from index \<open>i\<close> on; \<open>envs i\<close> is what the
  \<open>i\<close>-th worker gets from outside. \<^verbatim>\<open>process.exit\<close> ends the loop.\<close>

fun spawn_from ::
  "(nat \<Rightarrow> spawnEnv) \<Rightarrow> string \<Rightarrow> SpawnOptions \<Rightarrow> nat \<Rightarrow> string list \<Rightarrow> stateFile
     \<Rightarrow> outcome \<times> stateFile \<times> action list" where
  "spawn_from envs url options i [] file = (Returned, file, [])"
| "spawn_from envs url options i (t # ts) file =
     (case spawnSingleWorker (envs i) url t options (i = 0) file of
        (Exited, file1, acts) \<Rightarrow> (Exited, file1, acts)
      | (Returned, file1, acts) \<Rightarrow>
          (case spawn_from envs url options (Suc i) ts file1 of
             (out, file2, acts2) \<Rightarrow> (out, file2, acts @ acts2)))"

definition spawn ::
  "(nat \<Rightarrow> spawnEnv) \<Rightarrow> string \<Rightarrow> SpawnOptions \<Rightarrow> stateFile \<Rightarrow> outcome \<times> stateFile \<times> action list" where
  "spawn envs url options file = spawn_from envs url options 0 (task_opt options) file"

section \<open>Cleaning up workers (commands/cleanup.ts)\<close>

text \<open>The interface \<^verbatim>\<open>CleanupOptions\<close>; an absent flag is \<open>False\<close>.\<close>

record CleanupOptions =
  all_opt :: bool
  force_opt :: bool

text \<open>
  What the clean-up of one worker gets from outside: whether \<^verbatim>\<open>sendToItermSession\<close>
  throws, whether the worker's directory exists, whether \<^verbatim>\<open>rmSync\<close> throws and whether
  the fallback \<^verbatim>\<open>rm -rf\<close> throws. \<^verbatim>\<open>closeItermTab\<close> catches every exception itself.
\<close>

record cleanupEnv =
  sendThrows :: bool
  dirExists :: bool
  rmSyncThrows :: bool
  rmRfThrows :: bool

text \<open>The text \<^verbatim>\<open>"\\x03"\<close> of the source: a backslash, \<open>x\<close>, \<open>0\<close> and \<open>3\<close>.\<close>

definition ctrlC :: string where
  "ctrlC = [CHR 0x5C, CHR ''x'', CHR ''0'', CHR ''3'']"

text \<open>
  The inner \<^verbatim>\<open>try\<close> block that closes the terminal tab, with its empty \<^verbatim>\<open>catch\<close>;
  \<open>delay\<close> is 500 in \<^verbatim>\<open>cleanup\<close> and 200 in \<^verbatim>\<open>cleanupAll\<close>. The condition
  \<^verbatim>\<open>if (worker.terminalTab)\<close> holds for a non-empty string.
\<close>

definition closeTerminal :: "cleanupEnv \<Rightarrow> nat \<Rightarrow> Worker \<Rightarrow> action list" where
  "closeTerminal env delay worker =
     (case terminalTab worker of
        None \<Rightarrow> []
      | Some tab \<Rightarrow>
          if tab = [] then []
          else if sendThrows env then [SendToItermSession tab ctrlC]
          else [SendToItermSession tab ctrlC, Sleep delay, CloseItermTab tab])"

text \<open>The block that deletes the directory: whether an exception leaves it, and the
  calls made.\<close>

definition deleteDirectory :: "cleanupEnv \<Rightarrow> Worker \<Rightarrow> bool \<times> action list" where
  "deleteDirectory env worker =
     (if dirExists env then
        (if rmSyncThrows env then
           (if rmRfThrows env then (True, [RmSync (directory worker), RmRf (directory worker)])
            else (False, [RmSync (directory worker), RmRf (directory worker)]))
         else (False, [RmSync (directory worker)]))
      else (False, []))"

text \<open>The \<^verbatim>\<open>for\<close> loop of \<^verbatim>\<open>cleanupAll\<close> over the workers read at the start, from index
  \<open>i\<close> on, with the counters \<open>cleaned\<close> and \<open>failed\<close>.\<close>

fun cleanupAll_from ::
  "(nat \<Rightarrow> cleanupEnv) \<Rightarrow> nat \<Rightarrow> Worker list \<Rightarrow> stateFile \<Rightarrow> nat \<Rightarrow> nat
     \<Rightarrow> stateFile \<times> nat \<times> nat \<times> action list" where
  "cleanupAll_from envs i [] file cleaned failed = (file, cleaned, failed, [])"
| "cleanupAll_from envs i (worker # rest) file cleaned failed =
     (let acts1 = closeTerminal (envs i) 200 worker;
          (threw, acts2) = deleteDirectory (envs i) worker
      in if threw then
           (case cleanupAll_from envs (Suc i) rest file cleaned (failed + 1) of
              (file1, c, f, acts) \<Rightarrow> (file1, c, f, acts1 @ acts2 @ acts))
         else
           (case cleanupAll_from envs (Suc i) rest (snd (removeWorker (id_w worker) file))
                   (cleaned + 1) failed of
              (file1, c, f, acts) \<Rightarrow> (file1, c, f, acts1 @ acts2 @ acts)))"

definition cleanupAll ::
  "(nat \<Rightarrow> cleanupEnv) \<Rightarrow> bool \<Rightarrow> stateFile \<Rightarrow> outcome \<times> stateFile \<times> action list" where
  "cleanupAll envs force file =
     (let ws = getAllWorkers file
      in if ws = [] then (Returned, file, [LogNoWorkers])
         else if \<not> force then
           (Returned, file,
            LogWillRemove (length ws) # map (\<lambda>w. LogWorker (name w) (branch w)) ws
              @ [LogRunWithForce])
         else
           (case cleanupAll_from envs 0 ws file 0 0 of
              (file1, cleaned, failed, acts) \<Rightarrow>
                (Returned, clearItermWindowId file1,
                 acts @ [if failed > 0 then LogCleanedFailed cleaned failed
                         else LogCleaned cleaned])))"

text \<open>\<^verbatim>\<open>cleanup\<close>; \<open>None\<close> is an absent \<^verbatim>\<open>nameOrId\<close>, and \<^verbatim>\<open>!nameOrId\<close> holds for the
  empty string too. A single worker is cleaned up with \<open>envs 0\<close>.\<close>

definition cleanup ::
  "(nat \<Rightarrow> cleanupEnv) \<Rightarrow> string option \<Rightarrow> CleanupOptions \<Rightarrow> stateFile
     \<Rightarrow> outcome \<times> stateFile \<times> action list" where
  "cleanup envs nameOrId options file =
     (if all_opt options then cleanupAll envs (force_opt options) file
      else
        (case nameOrId of
           None \<Rightarrow> (Exited, file, [LogUsage])
         | Some n \<Rightarrow>
             if n = [] then (Exited, file, [LogUsage])
             else
               (case getWorker n file of
                  None \<Rightarrow> (Exited, file, [LogNotFound n])
                | Some worker \<Rightarrow>
                    (let acts1 = closeTerminal (envs 0) 500 worker;
                         (threw, acts2) = deleteDirectory (envs 0) worker
                     in if threw then (Exited, file, acts1 @ acts2)
                        else
                          (let file1 = snd (removeWorker n file);
                               file2 = (if getAllWorkers file1 = [] then clearItermWindowId file1
                                        else file1)
                           in (Returned, file2, acts1 @ acts2))))))"

section \<open>Histories of commands\<close>

text \<open>
  Each invocation of the program is one command; the state file is all that one invocation
  leaves to the next. \<open>run\<close> gives the file after a list of invocations.
\<close>

datatype command =
    Spawn "nat \<Rightarrow> spawnEnv" string SpawnOptions
  | Cleanup "nat \<Rightarrow> cleanupEnv" "string option" CleanupOptions

fun exec :: "command \<Rightarrow> stateFile \<Rightarrow> outcome \<times> stateFile \<times> action list" where
  "exec (Spawn envs url options) file = spawn envs url options file"
| "exec (Cleanup envs nameOrId options) file = cleanup envs nameOrId options file"

fun run :: "command list \<Rightarrow> stateFile \<Rightarrow> stateFile" where
  "run [] file = file"
| "run (c # cs) file = run cs (fst (snd (exec c file)))"

section \<open>Vocabulary of the properties\<close>

text \<open>A string has single hyphens when no two hyphens are adjacent.\<close>

fun singleHyphens :: "string \<Rightarrow> bool" where
  "singleHyphens (a # b # cs) \<longleftrightarrow> \<not> (a = CHR ''-'' \<and> b = CHR ''-'') \<and> singleHyphens (b # cs)"
| "singleHyphens cs \<longleftrightarrow> True"

definition isDigit :: "char \<Rightarrow> bool" where
  "isDigit c \<longleftrightarrow> 48 \<le> (of_char c :: nat) \<and> (of_char c :: nat) \<le> 57"

text \<open>The text of \<^verbatim>\<open>toISOString()\<close> for a year from 0000 to 9999 starts with
  \<^verbatim>\<open>YYYY-MM-DD\<close>.\<close>

definition isoDatePrefix :: "string \<Rightarrow> bool" where
  "isoDatePrefix s \<longleftrightarrow>
     (case take 10 s of
        [y1, y2, y3, y4, h1, m1, m2, h2, d1, d2] \<Rightarrow>
          list_all isDigit [y1, y2, y3, y4, m1, m2, d1, d2] \<and> h1 = CHR ''-'' \<and> h2 = CHR ''-''
      | _ \<Rightarrow> False)"

text \<open>A random source whose every attempt draws the first adjective and the first
  animal.\<close>

definition alwaysFirst :: "nat \<Rightarrow> nat \<times> nat" where
  "alwaysFirst i = (0, 0)"

text \<open>A registry identifies its records unambiguously when the ids are distinct and no
  record's name is another record's id.\<close>

definition uniqueIds :: "Worker list \<Rightarrow> bool" where
  "uniqueIds ws \<longleftrightarrow>
     distinct (map id_w ws) \<and> (\<forall>w \<in> set ws. \<forall>w' \<in> set ws. name w' = id_w w \<longrightarrow> w' = w)"

text \<open>A spawn attempt persists a record when it reaches \<^verbatim>\<open>addWorker\<close>; it succeeds when
  it also gets through the terminal calls.\<close>

definition persists :: "spawnEnv \<Rightarrow> bool" where
  "persists env \<longleftrightarrow> \<not> workerDirExists env \<and> \<not> setupThrows env"

definition succeeds :: "spawnEnv \<Rightarrow> bool" where
  "succeeds env \<longleftrightarrow>
     persists env \<and> \<not> ensureItermThrows env \<and> openWorkerTabResult env \<noteq> None"

text \<open>The number of successful attempts of a \<^verbatim>\<open>spawn\<close> invocation, which stops at its
  first failure, and whether that failure comes after the record was persisted.\<close>

fun succeeded_from :: "(nat \<Rightarrow> spawnEnv) \<Rightarrow> nat \<Rightarrow> string list \<Rightarrow> nat" where
  "succeeded_from envs i [] = 0"
| "succeeded_from envs i (t # ts) =
     (if succeeds (envs i) then Suc (succeeded_from envs (Suc i) ts) else 0)"

fun orphans_from :: "(nat \<Rightarrow> spawnEnv) \<Rightarrow> nat \<Rightarrow> string list \<Rightarrow> bool" where
  "orphans_from envs i [] \<longleftrightarrow> False"
| "orphans_from envs i (t # ts) \<longleftrightarrow>
     (if succeeds (envs i) then orphans_from envs (Suc i) ts else persists (envs i))"

text \<open>The number of records a \<^verbatim>\<open>spawn\<close> invocation persists: one for each attempt that
  reaches \<^verbatim>\<open>addWorker\<close>, the last of which may fail afterwards.\<close>

fun persisted_from :: "(nat \<Rightarrow> spawnEnv) \<Rightarrow> nat \<Rightarrow> string list \<Rightarrow> nat" where
  "persisted_from envs i [] = 0"
| "persisted_from envs i (t # ts) =
     (if succeeds (envs i) then Suc (persisted_from envs (Suc i) ts)
      else if persists (envs i) then 1 else 0)"

fun persisted :: "command \<Rightarrow> nat" where
  "persisted (Spawn envs url options) = persisted_from envs 0 (task_opt options)"
| "persisted (Cleanup envs nameOrId options) = 0"

fun succeeded :: "command \<Rightarrow> nat" where
  "succeeded (Spawn envs url options) = succeeded_from envs 0 (task_opt options)"
| "succeeded (Cleanup envs nameOrId options) = 0"

fun orphans :: "command \<Rightarrow> bool" where
  "orphans (Spawn envs url options) \<longleftrightarrow> orphans_from envs 0 (task_opt options)"
| "orphans (Cleanup envs nameOrId options) \<longleftrightarrow> False"

fun isSpawn :: "command \<Rightarrow> bool" where
  "isSpawn (Spawn envs url options) \<longleftrightarrow> True"
| "isSpawn (Cleanup envs nameOrId options) \<longleftrightarrow> False"

text \<open>The workers of a forced \<^verbatim>\<open>cleanupAll\<close> whose directory deletion throws.\<close>

definition deleteThrows :: "cleanupEnv \<Rightarrow> bool" where
  "deleteThrows env \<longleftrightarrow> dirExists env \<and> rmSyncThrows env \<and> rmRfThrows env"

fun failing_from :: "(nat \<Rightarrow> cleanupEnv) \<Rightarrow> nat \<Rightarrow> Worker list \<Rightarrow> Worker list" where
  "failing_from envs i [] = []"
| "failing_from envs i (w # ws) =
     (if deleteThrows (envs i) then w # failing_from envs (Suc i) ws
      else failing_from envs (Suc i) ws)"

text \<open>Two records and a registry holding them, for the examples below.\<close>

definition workerA :: Worker where
  "workerA =
     \<lparr>id_w = ''V1StGXR8aZ'', name = ''swift-fox'', repoUrl = ''https://github.com/user/repo.git'',
      repoName = ''repo'', branch = ''feat/fix-login-swift-fox-20240104'', task = ''Fix login'',
      directory = ''/home/u/.parallel-claude/workers/swift-fox'', port = 3100, pid = None,
      terminalTab = Some ''4711'', createdAt = ''2024-01-04T10:00:00.000Z'', status = Running\<rparr>"

definition workerB :: Worker where
  "workerB =
     \<lparr>id_w = ''k3Jx0pQ2Lm'', name = ''brave-owl'', repoUrl = ''https://github.com/user/repo.git'',
      repoName = ''repo'', branch = ''feat/add-tests-brave-owl-20240104'', task = ''Add tests'',
      directory = ''/home/u/.parallel-claude/workers/brave-owl'', port = 3110, pid = None,
      terminalTab = Some ''4711'', createdAt = ''2024-01-04T10:05:00.000Z'', status = Running\<rparr>"

definition registryAB :: stateFile where
  "registryAB = Stored \<lparr>workers = [workerA, workerB], nextPortOffset = 2, itermWindowId = None\<rparr>"

text \<open>Stripping leading and trailing hyphens, in the words of the specification: all
  hyphens at the start and all hyphens at the end are removed.\<close>

definition trimHyphens :: "string \<Rightarrow> string" where
  "trimHyphens s =
     rev (dropWhile (\<lambda>c. c = CHR ''-'') (rev (dropWhile (\<lambda>c. c = CHR ''-'') s)))"

text \<open>The ports \<open>basePort + (k + i) * portIncrement\<close> for \<open>i\<close> from 0 below \<open>n\<close>.\<close>

definition portsFrom :: "int \<Rightarrow> nat \<Rightarrow> int list" where
  "portsFrom k n = map (\<lambda>i. basePort + (k + int i) * portIncrement) [0..<n]"

text \<open>Example surroundings of a spawn: one in which every step works and one in which
  \<^verbatim>\<open>openWorkerTab\<close> throws; and example options.\<close>

definition envOk :: spawnEnv where
  "envOk =
     \<lparr>draw = alwaysFirst, now = 1700000000000, nanoid = ''V1StGXR8aZ'',
      isoBranch = ''2024-01-04T10:00:00.000Z'', isoCreated = ''2024-01-04T10:00:02.000Z'',
      workersDir = ''/home/u/.parallel-claude/workers'', workerDirExists = False,
      setupThrows = False, bunLock = False, ensureItermThrows = False,
      openWorkerTabResult = Some ''4711''\<rparr>"

definition envTabFails :: spawnEnv where
  "envTabFails = envOk\<lparr>openWorkerTabResult := None\<rparr>"

text \<open>Surroundings in which every attempt draws the \<open>k\<close>-th adjective and the \<open>k\<close>-th
  animal, so that different \<open>k\<close> give different names and directories.\<close>

definition drawAt :: "nat \<Rightarrow> nat \<Rightarrow> nat \<times> nat" where
  "drawAt k i = (k, k)"

definition envNamed :: "nat \<Rightarrow> spawnEnv" where
  "envNamed k =
     envOk\<lparr>draw := drawAt k,
           nanoid := [''V1StGXR8aZ'', ''k3Jx0pQ2Lm'', ''Zq8_w1NcT5'', ''b7Rt2YwM4c''] ! (k mod 4)\<rparr>"

definition envsFrom :: "nat \<Rightarrow> nat \<Rightarrow> spawnEnv" where
  "envsFrom k i = envNamed (k + i)"

definition envsCloneFailsAt :: "nat \<Rightarrow> nat \<Rightarrow> spawnEnv" where
  "envsCloneFailsAt k i = (envNamed k)\<lparr>setupThrows := True\<rparr>"

definition envsTabFails :: "nat \<Rightarrow> spawnEnv" where
  "envsTabFails i = envTabFails"

definition envsOk :: "nat \<Rightarrow> spawnEnv" where
  "envsOk i = envOk"

definition repoA :: string where
  "repoA = ''https://github.com/user/repo.git''"

definition optionsA :: SpawnOptions where
  "optionsA =
     \<lparr>task_opt = [''Fix login''], branch_opt = None, port_opt = None, noDev_opt = False,
      name_opt = None\<rparr>"

definition optionsAB :: SpawnOptions where
  "optionsAB = optionsA\<lparr>task_opt := [''Fix login'', ''Add tests'']\<rparr>"

text \<open>A history of three invocations: two workers are spawned, a spawn fails at the
  clone, a third worker is spawned. And two histories that start with a spawn in which
  \<^verbatim>\<open>openWorkerTab\<close> throws.\<close>

definition historyA :: "command list" where
  "historyA = [Spawn (envsFrom 0) repoA optionsAB, Spawn (envsCloneFailsAt 3) repoA optionsA,
               Spawn (envsFrom 2) repoA optionsA]"

definition historyOrphan :: "command list" where
  "historyOrphan = [Spawn envsTabFails repoA optionsA]"

definition historyOrphanThenOk :: "command list" where
  "historyOrphanThenOk =
     [Spawn envsTabFails repoA optionsA, Spawn (envsFrom (Suc 0)) repoA optionsA]"

text \<open>A registry with one record and a remembered window, and example surroundings
  and options of a clean-up.\<close>

definition registryA :: stateFile where
  "registryA = Stored \<lparr>workers = [workerA], nextPortOffset = 1, itermWindowId = Some ''4711''\<rparr>"

definition cenvOk :: cleanupEnv where
  "cenvOk = \<lparr>sendThrows = False, dirExists = True, rmSyncThrows = False, rmRfThrows = False\<rparr>"

definition cenvsOk :: "nat \<Rightarrow> cleanupEnv" where
  "cenvsOk i = cenvOk"

definition coptsOne :: CleanupOptions where
  "coptsOne = \<lparr>all_opt = False, force_opt = False\<rparr>"

text \<open>The worker names on the lines a dry run prints, and the actions that only print.\<close>

fun listedNames :: "action list \<Rightarrow> string list" where
  "listedNames [] = []"
| "listedNames (LogWorker n b # acts) = n # listedNames acts"
| "listedNames (a # acts) = listedNames acts"

fun isLog :: "action \<Rightarrow> bool" where
  "isLog LogNoWorkers \<longleftrightarrow> True"
| "isLog (LogWillRemove n) \<longleftrightarrow> True"
| "isLog (LogWorker n b) \<longleftrightarrow> True"
| "isLog LogRunWithForce \<longleftrightarrow> True"
| "isLog (LogCleaned n) \<longleftrightarrow> True"
| "isLog (LogCleanedFailed n m) \<longleftrightarrow> True"
| "isLog LogUsage \<longleftrightarrow> True"
| "isLog (LogNotFound n) \<longleftrightarrow> True"
| "isLog a \<longleftrightarrow> False"

text \<open>A third record, a registry of three, and a clean-up in which the deletion of the
  second worker's directory throws.\<close>

definition workerC :: Worker where
  "workerC =
     \<lparr>id_w = ''Zq8_w1NcT5'', name = ''calm-lynx'', repoUrl = ''https://github.com/user/repo.git'',
      repoName = ''repo'', branch = ''feat/write-docs-calm-lynx-20240104'', task = ''Write docs'',
      directory = ''/home/u/.parallel-claude/workers/calm-lynx'', port = 3120, pid = None,
      terminalTab = None, createdAt = ''2024-01-04T10:09:00.000Z'', status = Running\<rparr>"

definition registryABC :: stateFile where
  "registryABC =
     Stored \<lparr>workers = [workerA, workerB, workerC], nextPortOffset = 3,
             itermWindowId = Some ''4711''\<rparr>"

definition cenvFails :: cleanupEnv where
  "cenvFails = \<lparr>sendThrows = True, dirExists = True, rmSyncThrows = True, rmRfThrows = True\<rparr>"

definition cenvsSecondFails :: "nat \<Rightarrow> cleanupEnv" where
  "cenvsSecondFails i = (if i = 1 then cenvFails else cenvOk)"


section \<open>Loading the registry\<close>

text \<open>
  Claim C9, as stated, fails: a store whose text is the JSON value \<^verbatim>\<open>null\<close>, or the
  object \<^verbatim>\<open>{}\<close>, is not a registry, and \<^verbatim>\<open>loadState\<close> returns that value, not the
  default state.
\<close>

theorem loadState_returns_unvalidated_json:
  "loadState_raw [] (Present True (OtherJson JNull)) = Inr (AsJson JNull)
   \<and> loadState_raw [] (Present True (OtherJson (JObject []))) = Inr (AsJson (JObject []))
   \<and> loadState_raw [] (Present True (OtherJson (JObject []))) \<noteq> Inr (AsState DEFAULT_STATE)"
  by (simp add: loadState_raw_def)

text \<open>
  Claim C9, amended. \<^verbatim>\<open>loadState\<close> never throws. When there is no file, when the file
  cannot be read and when its text is not JSON, and whenever the body of the \<^verbatim>\<open>try\<close>
  block throws, it returns a copy of \<^verbatim>\<open>DEFAULT_STATE\<close>; as long as no worker was pushed
  onto such a copy, that is the default empty state, with no workers, \<open>nextPortOffset\<close>
  0 and no shared-window handle. When the text is JSON, it returns the value parsed, a
  state or not. On the stores the commands are modelled on, it is the function
  \<open>loadState\<close> of the model.
\<close>

theorem loadState_swallows:
  "(\<exists>v. loadState_raw dw st = Inr v)
   \<and> (st = Absent \<or> st = Present False txt \<or> st = Present True NotJson
        \<longrightarrow> loadState_raw dw st = Inr (AsState (defaultCopy dw)))
   \<and> (loadState_raw_try st = Inl e \<longrightarrow> loadState_raw dw st = Inr (AsState (defaultCopy dw)))
   \<and> defaultCopy [] = DEFAULT_STATE
   \<and> workers DEFAULT_STATE = [] \<and> nextPortOffset DEFAULT_STATE = 0
   \<and> itermWindowId DEFAULT_STATE = None
   \<and> loadState_raw dw (Present True (StateJson s)) = Inr (AsState s)
   \<and> loadState_raw dw (Present True (OtherJson j)) = Inr (AsJson j)
   \<and> loadState_raw [] (storeOf file) = Inr (AsState (loadState file))"
proof -
  have total: "\<exists>v. loadState_raw dw st = Inr v"
    by (cases "loadState_raw_try st") (auto simp: loadState_raw_def split: option.splits)
  have dflt: "loadState_raw dw st = Inr (AsState (defaultCopy dw))"
    if "st = Absent \<or> st = Present False txt \<or> st = Present True NotJson"
    using that by (auto simp: loadState_raw_def)
  have caught: "loadState_raw dw st = Inr (AsState (defaultCopy dw))"
    if "loadState_raw_try st = Inl e"
    using that by (simp add: loadState_raw_def)
  have empty: "defaultCopy [] = DEFAULT_STATE"
    by (simp add: defaultCopy_def DEFAULT_STATE_def)
  have fields: "workers DEFAULT_STATE = []" "nextPortOffset DEFAULT_STATE = 0"
    "itermWindowId DEFAULT_STATE = None"
    by (simp_all add: DEFAULT_STATE_def)
  have parsed: "loadState_raw dw (Present True (StateJson s)) = Inr (AsState s)"
    "loadState_raw dw (Present True (OtherJson j)) = Inr (AsJson j)"
    by (simp_all add: loadState_raw_def)
  have coarse: "loadState_raw [] (storeOf file) = Inr (AsState (loadState file))"
    by (cases "file") (simp_all add: loadState_raw_def loadState_def empty)
  from total dflt caught empty fields parsed coarse show ?thesis by blast
qed

theorem loadState_swallows_witness:
  "loadState_raw_try (Present True NotJson) = Inl SyntaxError
   \<and> loadState_raw [] (Present True NotJson) = Inr (AsState DEFAULT_STATE)
   \<and> loadState_raw [] (Present False (StateJson DEFAULT_STATE)) = Inr (AsState DEFAULT_STATE)
   \<and> loadState_raw [] Absent = Inr (AsState DEFAULT_STATE)
   \<and> loadState_raw [workerA] (Present False NotJson)
       = Inr (AsState \<lparr>workers = [workerA], nextPortOffset = 0, itermWindowId = None\<rparr>)"
proof -
  have e: "loadState_raw_try (Present True NotJson) = Inl SyntaxError" by simp
  have d: "defaultCopy [workerA]
             = \<lparr>workers = [workerA], nextPortOffset = 0, itermWindowId = None\<rparr>"
    by (simp add: defaultCopy_def DEFAULT_STATE_def)
  from loadState_swallows [of "[]" "Present True NotJson" NotJson SyntaxError]
    loadState_swallows [of "[]" "Present False (StateJson DEFAULT_STATE)"
      "StateJson DEFAULT_STATE"]
    loadState_swallows [of "[]" Absent]
    loadState_swallows [of "[workerA]" "Present False NotJson" NotJson]
    e d
  show ?thesis by simp
qed

section \<open>Removing a record\<close>

lemma findIndex_None: "findIndex P xs = None \<longleftrightarrow> (\<forall>x \<in> set xs. \<not> P x)"
  by (induction xs) auto

lemma findIndex_first:
  "\<forall>x \<in> set pre. \<not> P x \<Longrightarrow> P x \<Longrightarrow> findIndex P (pre @ x # post) = Some (length pre)"
  by (induction pre) auto

lemma removeWorker_absent:
  "\<forall>w \<in> set (workers (loadState file)). \<not> matches n w \<Longrightarrow> removeWorker n file = (None, file)"
  using findIndex_None [of "matches n" "workers (loadState file)"]
  by (simp add: removeWorker_def)

lemma removeWorker_first:
  assumes "workers (loadState file) = pre @ w # post"
    and "\<forall>x \<in> set pre. \<not> matches n x" and "matches n w"
  shows "removeWorker n file = (Some w, Stored ((loadState file)\<lparr>workers := pre @ post\<rparr>))"
  using findIndex_first [OF assms(2,3), of post] assms(1)
  by (simp add: removeWorker_def saveState_def)

lemma find_split:
  "find P xs = Some x \<Longrightarrow> \<exists>pre post. xs = pre @ x # post \<and> P x \<and> (\<forall>y \<in> set pre. \<not> P y)"
proof (induction xs)
  case Nil then show ?case by simp
next
  case (Cons a xs)
  show ?case
  proof (cases "P a")
    case True
    with Cons.prems have "a = x" by simp
    with True show ?thesis by (intro exI [of _ "[]"] exI [of _ xs]) simp
  next
    case False
    with Cons.prems have "find P xs = Some x" by simp
    from Cons.IH [OF this] obtain pre post where
      "xs = pre @ x # post" "P x" "\<forall>y \<in> set pre. \<not> P y" by blast
    with False show ?thesis by (intro exI [of _ "a # pre"] exI [of _ post]) simp
  qed
qed

lemma first_split_unique:
  "pre @ x # post = pre' @ x # post' \<Longrightarrow> x \<notin> set pre \<Longrightarrow> x \<notin> set pre' \<Longrightarrow> pre = pre' \<and> post = post'"
proof (induction pre arbitrary: pre')
  case Nil
  then show ?case by (cases pre') auto
next
  case (Cons a pre)
  then show ?case by (cases pre') auto
qed

text \<open>
  Claim C8. When the name and the id of a record \<open>w\<close> both refer to \<open>w\<close> (looking either
  up finds \<open>w\<close>), \<^verbatim>\<open>removeWorker\<close> applied to the name and applied to the id do the same:
  both return \<open>w\<close> and save the registry without its first occurrence. Applied to an
  identifier that no record matches, \<^verbatim>\<open>removeWorker\<close> returns \<^verbatim>\<open>undefined\<close> and leaves the
  file as it was.
\<close>

theorem removeWorker_name_id:
  "(getWorker (name w) file = Some w \<and> getWorker (id_w w) file = Some w
    \<longrightarrow> removeWorker (name w) file = removeWorker (id_w w) file
      \<and> fst (removeWorker (name w) file) = Some w
      \<and> snd (removeWorker (name w) file)
          = Stored ((loadState file)\<lparr>workers := remove1 w (workers (loadState file))\<rparr>))
   \<and> (getWorker n file = None
    \<longrightarrow> removeWorker n file = (None, file)
      \<and> workers (loadState (snd (removeWorker n file))) = workers (loadState file))"
proof (intro conjI impI)
  assume a: "getWorker (name w) file = Some w \<and> getWorker (id_w w) file = Some w"
  have m1: "matches (name w) w" and m2: "matches (id_w w) w" by (simp_all add: matches_def)
  from a find_split [of "matches (name w)" "workers (loadState file)" w]
  obtain pre post where s1: "workers (loadState file) = pre @ w # post"
    and n1: "\<forall>x \<in> set pre. \<not> matches (name w) x"
    unfolding getWorker_def by blast
  from a find_split [of "matches (id_w w)" "workers (loadState file)" w]
  obtain pre' post' where s2: "workers (loadState file) = pre' @ w # post'"
    and n2: "\<forall>x \<in> set pre'. \<not> matches (id_w w) x"
    unfolding getWorker_def by blast
  from n1 m1 have w1: "w \<notin> set pre" by blast
  from n2 m2 have w2: "w \<notin> set pre'" by blast
  from first_split_unique [of pre w post pre' post'] s1 s2 w1 w2
  have eq: "pre' = pre" "post' = post" by simp_all
  have r1: "remove1 w (workers (loadState file)) = pre @ post"
    using s1 w1 by (simp add: remove1_append)
  note e1 = removeWorker_first [OF s1 n1 m1]
    and e2 = removeWorker_first [OF s2 n2 m2]
  show "removeWorker (name w) file = removeWorker (id_w w) file" using e1 e2 eq by simp
  show "fst (removeWorker (name w) file) = Some w" using e1 by simp
  show "snd (removeWorker (name w) file)
          = Stored ((loadState file)\<lparr>workers := remove1 w (workers (loadState file))\<rparr>)"
    using e1 r1 by simp
next
  assume "getWorker n file = None"
  then have "\<forall>w' \<in> set (workers (loadState file)). \<not> matches n w'"
    by (simp add: getWorker_def find_None_iff)
  then show "removeWorker n file = (None, file)" by (rule removeWorker_absent)
next
  assume "getWorker n file = None"
  then have "\<forall>w' \<in> set (workers (loadState file)). \<not> matches n w'"
    by (simp add: getWorker_def find_None_iff)
  then show "workers (loadState (snd (removeWorker n file))) = workers (loadState file)"
    by (simp add: removeWorker_absent)
qed

theorem removeWorker_name_id_witness:
  "getWorker ''swift-fox'' registryAB = Some workerA
   \<and> getWorker ''V1StGXR8aZ'' registryAB = Some workerA
   \<and> getWorker ''calm-lynx'' registryAB = None
   \<and> removeWorker ''swift-fox'' registryAB = removeWorker ''V1StGXR8aZ'' registryAB
   \<and> fst (removeWorker ''swift-fox'' registryAB) = Some workerA
   \<and> workers (loadState (snd (removeWorker ''swift-fox'' registryAB))) = [workerB]
   \<and> removeWorker ''calm-lynx'' registryAB = (None, registryAB)"
proof -
  have nm: "name workerA = ''swift-fox''" "id_w workerA = ''V1StGXR8aZ''"
    by (simp_all add: workerA_def)
  have h1: "getWorker (name workerA) registryAB = Some workerA"
    by (simp add: getWorker_def registryAB_def loadState_def matches_def)
  have h2: "getWorker (id_w workerA) registryAB = Some workerA"
    by (simp add: getWorker_def registryAB_def loadState_def matches_def)
  have h3: "getWorker ''calm-lynx'' registryAB = None"
    by (simp add: getWorker_def registryAB_def loadState_def matches_def workerA_def
        workerB_def)
  have ne: "workerB \<noteq> workerA" by (simp add: workerA_def workerB_def)
  have r: "remove1 workerA (workers (loadState registryAB)) = [workerB]"
    using ne by (simp add: registryAB_def loadState_def)
  have t: "removeWorker (name workerA) registryAB = removeWorker (id_w workerA) registryAB
      \<and> fst (removeWorker (name workerA) registryAB) = Some workerA
      \<and> snd (removeWorker (name workerA) registryAB)
          = Stored ((loadState registryAB)\<lparr>workers := [workerB]\<rparr>)
      \<and> removeWorker ''calm-lynx'' registryAB = (None, registryAB)"
    using removeWorker_name_id [of workerA registryAB "''calm-lynx''"] h1 h2 h3 r by metis
  from t have a1: "removeWorker ''swift-fox'' registryAB = removeWorker ''V1StGXR8aZ'' registryAB"
    unfolding nm by blast
  from t have a2: "fst (removeWorker ''swift-fox'' registryAB) = Some workerA"
    unfolding nm by blast
  from t have a3: "snd (removeWorker ''swift-fox'' registryAB)
          = Stored ((loadState registryAB)\<lparr>workers := [workerB]\<rparr>)"
    unfolding nm by blast
  have a4: "workers (loadState (snd (removeWorker ''swift-fox'' registryAB))) = [workerB]"
    unfolding a3 by (simp add: loadState_def)
  from t have a5: "removeWorker ''calm-lynx'' registryAB = (None, registryAB)"
    by blast
  from h1 h2 h3 a1 a2 a4 a5 show ?thesis unfolding nm by blast
qed

section \<open>Worker names\<close>

lemma generate_from_all_collide:
  "\<forall>j. candidate (d j) \<in> set ex \<Longrightarrow>
   generateWorkerName_from d n ex i = ''worker-'' @ numberToString n"
  by (induction d n ex i rule: generateWorkerName_from.induct)
     (subst generateWorkerName_from.simps, auto)

lemma generate_from_result:
  "generateWorkerName_from d n ex i = ''worker-'' @ numberToString n
     \<and> (\<forall>j. i \<le> j \<and> j < 100 \<longrightarrow> candidate (d j) \<in> set ex)
   \<or> (\<exists>j. i \<le> j \<and> j < 100 \<and> generateWorkerName_from d n ex i = candidate (d j)
         \<and> candidate (d j) \<notin> set ex
         \<and> (\<forall>k. i \<le> k \<and> k < j \<longrightarrow> candidate (d k) \<in> set ex))"
proof (induction d n ex i rule: generateWorkerName_from.induct)
  case (1 d n ex i)
  show ?case
  proof (cases "i < 100")
    case False
    then show ?thesis
      by (subst generateWorkerName_from.simps, subst (2) generateWorkerName_from.simps) auto
  next
    case lt: True
    show ?thesis
    proof (cases "candidate (d i) \<in> set ex")
      case False
      have "generateWorkerName_from d n ex i = candidate (d i)"
        using lt False by (subst generateWorkerName_from.simps) simp
      with lt False show ?thesis by (intro disjI2 exI [of _ i]) auto
    next
      case True
      have eq: "generateWorkerName_from d n ex i = generateWorkerName_from d n ex (Suc i)"
        using lt True by (subst generateWorkerName_from.simps) simp
      from "1.IH" [OF lt] True
      consider (fallback)
          "generateWorkerName_from d n ex (Suc i) = ''worker-'' @ numberToString n"
          "\<forall>j. Suc i \<le> j \<and> j < 100 \<longrightarrow> candidate (d j) \<in> set ex"
        | (drawn) j where "Suc i \<le> j" "j < 100"
          "generateWorkerName_from d n ex (Suc i) = candidate (d j)"
          "candidate (d j) \<notin> set ex"
          "\<forall>k. Suc i \<le> k \<and> k < j \<longrightarrow> candidate (d k) \<in> set ex"
        by auto
      then show ?thesis
      proof cases
        case fallback
        have "\<forall>j. i \<le> j \<and> j < 100 \<longrightarrow> candidate (d j) \<in> set ex"
          using fallback(2) True by (metis Suc_leI le_neq_implies_less)
        with fallback(1) eq show ?thesis by simp
      next
        case drawn
        have "\<forall>k. i \<le> k \<and> k < j \<longrightarrow> candidate (d k) \<in> set ex"
          using drawn(5) True by (metis Suc_leI le_neq_implies_less)
        with drawn eq show ?thesis by (intro disjI2 exI [of _ j]) auto
      qed
    qed
  qed
qed

text \<open>
  Claim C6, as stated, fails: with the two names below in the input (far fewer than the
  256 combinations), draws that give \<^verbatim>\<open>swift-fox\<close> a hundred times and the clock at
  1700000000000, the fallback name is returned although it is in the input.
\<close>

theorem generateWorkerName_fallback_collides:
  "length [''swift-fox'', ''worker-1700000000000''] < length adjectives * length animals
   \<and> generateWorkerName alwaysFirst 1700000000000 [''swift-fox'', ''worker-1700000000000'']
       \<in> set [''swift-fox'', ''worker-1700000000000'']"
proof -
  have c: "\<forall>j. candidate (alwaysFirst j) \<in> set [''swift-fox'', ''worker-1700000000000'']"
    by (simp add: candidate_def alwaysFirst_def adjectives_def animals_def)
  have n: "numberToString 1700000000000 = ''1700000000000''"
    by (simp add: numberToString_def natToString.simps digitChar_def)
  have "generateWorkerName alwaysFirst 1700000000000 [''swift-fox'', ''worker-1700000000000'']
          = ''worker-1700000000000''"
    unfolding generateWorkerName_def generate_from_all_collide [OF c] n by simp
  then show ?thesis by (simp add: adjectives_def animals_def)
qed

text \<open>
  Claim C6, amended. For every input and every outcome of the draws,
  \<^verbatim>\<open>generateWorkerName\<close> returns the first of the 100 drawn names that is not in the input,
  or, when all 100 drawn names are in the input, the name \<^verbatim>\<open>worker-<Date.now()>\<close>; the
  name returned is not in the input whenever that fallback name is not in the input.
\<close>

theorem generateWorkerName_fresh:
  "((\<exists>j < 100. generateWorkerName draw' now' existingNames = candidate (draw' j)
        \<and> candidate (draw' j) \<notin> set existingNames
        \<and> (\<forall>k < j. candidate (draw' k) \<in> set existingNames))
    \<or> (generateWorkerName draw' now' existingNames = ''worker-'' @ numberToString now'
        \<and> (\<forall>j < 100. candidate (draw' j) \<in> set existingNames)))
   \<and> (''worker-'' @ numberToString now' \<notin> set existingNames
        \<longrightarrow> generateWorkerName draw' now' existingNames \<notin> set existingNames)"
proof -
  from generate_from_result [of draw' now' existingNames 0]
  have first: "(\<exists>j < 100. generateWorkerName draw' now' existingNames = candidate (draw' j)
        \<and> candidate (draw' j) \<notin> set existingNames
        \<and> (\<forall>k < j. candidate (draw' k) \<in> set existingNames))
    \<or> (generateWorkerName draw' now' existingNames = ''worker-'' @ numberToString now'
        \<and> (\<forall>j < 100. candidate (draw' j) \<in> set existingNames))"
    unfolding generateWorkerName_def by auto
  then have "''worker-'' @ numberToString now' \<notin> set existingNames
        \<longrightarrow> generateWorkerName draw' now' existingNames \<notin> set existingNames"
    by auto
  with first show ?thesis by blast
qed

theorem generateWorkerName_fresh_witness:
  "''worker-'' @ numberToString 1700000000000 \<notin> set [''swift-fox'']
   \<and> generateWorkerName alwaysFirst 1700000000000 [''swift-fox''] \<notin> set [''swift-fox'']
   \<and> generateWorkerName alwaysFirst 1700000000000 [''swift-fox''] = ''worker-1700000000000''"
proof -
  have c: "\<forall>j. candidate (alwaysFirst j) \<in> set [''swift-fox'']"
    by (simp add: candidate_def alwaysFirst_def adjectives_def animals_def)
  have n: "numberToString 1700000000000 = ''1700000000000''"
    by (simp add: numberToString_def natToString.simps digitChar_def)
  have g: "generateWorkerName alwaysFirst 1700000000000 [''swift-fox'']
             = ''worker-1700000000000''"
    unfolding generateWorkerName_def generate_from_all_collide [OF c] n by simp
  have h: "''worker-'' @ numberToString 1700000000000 \<notin> set [''swift-fox'']"
    by (simp add: n)
  show ?thesis
    using generateWorkerName_fresh [of alwaysFirst 1700000000000 "[''swift-fox'']"] h g
    by simp
qed

section \<open>Branch names\<close>

lemma hyphen_not_alnum: "\<not> isLowerAlnum CHR ''-''"
  by (simp add: isLowerAlnum_def)

lemma replaceRuns_chars: "c \<in> set (replaceRuns s) \<Longrightarrow> isLowerAlnum c \<or> c = CHR ''-''"
  by (induction s rule: replaceRuns.induct) (auto split: if_splits)

lemma replaceRuns_head:
  "replaceRuns s = a # r \<Longrightarrow> s \<noteq> [] \<and> (a = CHR ''-'' \<longleftrightarrow> \<not> isLowerAlnum (hd s))"
  by (cases s) (auto simp: hyphen_not_alnum split: if_splits)

lemma dropWhile_head: "dropWhile P xs = y # ys \<Longrightarrow> \<not> P y"
  by (metis hd_dropWhile list.sel(1) list.distinct(1))

lemma singleHyphens_Cons:
  "singleHyphens (a # s) \<longleftrightarrow> (s = [] \<or> \<not> (a = CHR ''-'' \<and> hd s = CHR ''-'')) \<and> singleHyphens s"
  by (cases s) auto

lemma singleHyphens_replaceRuns: "singleHyphens (replaceRuns s)"
proof (induction s rule: replaceRuns.induct)
  case 1
  show ?case by simp
next
  case (2 c cs)
  show ?case
  proof (cases "isLowerAlnum c")
    case True
    with 2 hyphen_not_alnum show ?thesis by (auto simp: singleHyphens_Cons)
  next
    case False
    let ?d = "dropWhile (\<lambda>d. \<not> isLowerAlnum d) cs"
    have "replaceRuns ?d = [] \<or> hd (replaceRuns ?d) \<noteq> CHR ''-''"
    proof (cases "replaceRuns ?d")
      case Nil then show ?thesis by simp
    next
      case (Cons a r)
      from replaceRuns_head [OF Cons] obtain y ys where d: "?d = y # ys" and a: "a = CHR ''-'' \<longleftrightarrow> \<not> isLowerAlnum y"
        by (cases ?d) auto
      from dropWhile_head [OF d] a Cons show ?thesis by simp
    qed
    with False 2 show ?thesis by (auto simp: singleHyphens_Cons)
  qed
qed

lemma singleHyphens_take: "singleHyphens s \<Longrightarrow> singleHyphens (take n s)"
proof (induction s arbitrary: n)
  case Nil then show ?case by simp
next
  case (Cons a s)
  show ?case
  proof (cases n)
    case 0 then show ?thesis by simp
  next
    case (Suc m)
    from Cons.prems have sh: "singleHyphens s"
      and hs: "s = [] \<or> \<not> (a = CHR ''-'' \<and> hd s = CHR ''-'')"
      by (simp_all add: singleHyphens_Cons)
    have ih: "singleHyphens (take m s)" using Cons.IH [OF sh] .
    have "take m s = [] \<or> hd (take m s) = hd s" by (cases m; cases s) auto
    then show ?thesis using Suc ih hs by (auto simp: singleHyphens_Cons)
  qed
qed

lemma singleHyphens_snoc:
  "singleHyphens (s @ [a]) \<longleftrightarrow> (s = [] \<or> \<not> (last s = CHR ''-'' \<and> a = CHR ''-'')) \<and> singleHyphens s"
proof (induction s)
  case Nil show ?case by simp
next
  case (Cons b s)
  then show ?case by (cases s) (auto simp: singleHyphens_Cons)
qed

lemma singleHyphens_butlast: "singleHyphens s \<Longrightarrow> singleHyphens (butlast s)"
  by (cases s rule: rev_cases) (auto simp: singleHyphens_snoc)

lemma singleHyphens_tl: "singleHyphens s \<Longrightarrow> singleHyphens (tl s)"
  by (cases s) (auto simp: singleHyphens_Cons)

lemma stripHyphens_props:
  assumes "singleHyphens s"
  shows "singleHyphens (stripHyphens s)"
    and "stripHyphens s \<noteq> [] \<Longrightarrow> hd (stripHyphens s) \<noteq> CHR ''-'' \<and> last (stripHyphens s) \<noteq> CHR ''-''"
    and "set (stripHyphens s) \<subseteq> set s"
    and "length (stripHyphens s) \<le> length s"
proof -
  define s1 where "s1 = (case s of [] \<Rightarrow> [] | c # cs \<Rightarrow> if c = CHR ''-'' then cs else s)"
  have st: "stripHyphens s = (if s1 \<noteq> [] \<and> last s1 = CHR ''-'' then butlast s1 else s1)"
    by (simp add: stripHyphens_def s1_def)
  have s1a: "singleHyphens s1" using assms by (auto simp: s1_def singleHyphens_Cons split: list.splits)
  have s1b: "s1 = [] \<or> hd s1 \<noteq> CHR ''-''" using assms by (auto simp: s1_def singleHyphens_Cons split: list.splits)
  have s1c: "set s1 \<subseteq> set s" "length s1 \<le> length s" by (auto simp: s1_def split: list.splits)
  show "singleHyphens (stripHyphens s)" using s1a by (simp add: st singleHyphens_butlast)
  show "set (stripHyphens s) \<subseteq> set s" using s1c(1) by (auto simp: st dest: in_set_butlastD)
  show "length (stripHyphens s) \<le> length s" using s1c(2) by (auto simp: st)
  show "hd (stripHyphens s) \<noteq> CHR ''-'' \<and> last (stripHyphens s) \<noteq> CHR ''-''" if ne: "stripHyphens s \<noteq> []"
  proof (cases "s1 \<noteq> [] \<and> last s1 = CHR ''-''")
    case False
    with ne s1b show ?thesis by (auto simp: st)
  next
    case True
    then obtain b a where sn: "s1 = b @ [a]" "a = CHR ''-''" by (metis snoc_eq_iff_butlast)
    with ne True have bne: "b \<noteq> []" by (simp add: st)
    from s1a sn bne have "last b \<noteq> CHR ''-''" by (simp add: singleHyphens_snoc)
    moreover from s1b sn bne have "hd b \<noteq> CHR ''-''" by (cases b) auto
    ultimately show ?thesis using sn True by (simp add: st)
  qed
qed

lemma dateStamp_digits:
  assumes "isoDatePrefix t"
  shows "length (dateStamp t) = 8 \<and> list_all isDigit (dateStamp t)"
proof -
  have nd: "\<And>c. isDigit c \<Longrightarrow> c \<noteq> CHR ''-''" by (auto simp: isDigit_def)
  from assms obtain y1 y2 y3 y4 h1 m1 m2 h2 d1 d2 where
    tk: "take 10 t = [y1, y2, y3, y4, h1, m1, m2, h2, d1, d2]"
    and dg: "list_all isDigit [y1, y2, y3, y4, m1, m2, d1, d2]" and h: "h1 = CHR ''-''" "h2 = CHR ''-''"
    unfolding isoDatePrefix_def
    by (auto split: list.splits)
  show ?thesis unfolding dateStamp_def tk using dg h nd by auto
qed

lemma stripHyphens_trim:
  assumes "singleHyphens s"
  shows "stripHyphens s = trimHyphens s"
proof -
  define s1 where "s1 = (case s of [] \<Rightarrow> [] | c # cs \<Rightarrow> if c = CHR ''-'' then cs else s)"
  have st: "stripHyphens s = (if s1 \<noteq> [] \<and> last s1 = CHR ''-'' then butlast s1 else s1)"
    by (simp add: stripHyphens_def s1_def)
  have s1a: "singleHyphens s1"
    using assms by (auto simp: s1_def singleHyphens_Cons split: list.splits)
  have s1b: "s1 = [] \<or> hd s1 \<noteq> CHR ''-''"
    using assms by (auto simp: s1_def singleHyphens_Cons split: list.splits)
  have d1: "dropWhile (\<lambda>c. c = CHR ''-'') s = s1"
  proof (cases s)
    case Nil then show ?thesis by (simp add: s1_def)
  next
    case (Cons c cs)
    show ?thesis
    proof (cases "c = CHR ''-''")
      case False with Cons show ?thesis by (simp add: s1_def)
    next
      case True
      with Cons have "s1 = cs" by (simp add: s1_def)
      with s1b have "dropWhile (\<lambda>c. c = CHR ''-'') cs = cs" by (cases cs) auto
      with Cons True \<open>s1 = cs\<close> show ?thesis by simp
    qed
  qed
  have d2: "rev (dropWhile (\<lambda>c. c = CHR ''-'') (rev s1))
              = (if s1 \<noteq> [] \<and> last s1 = CHR ''-'' then butlast s1 else s1)"
  proof (cases s1 rule: rev_cases)
    case Nil then show ?thesis by simp
  next
    case (snoc b a)
    show ?thesis
    proof (cases "a = CHR ''-''")
      case False with snoc show ?thesis by simp
    next
      case True
      from s1a snoc True have "b = [] \<or> last b \<noteq> CHR ''-''"
        by (simp add: singleHyphens_snoc)
      then have "dropWhile (\<lambda>c. c = CHR ''-'') (rev b) = rev b"
        by (cases b rule: rev_cases) auto
      with snoc True show ?thesis by simp
    qed
  qed
  show ?thesis unfolding trimHyphens_def d1 d2 st ..
qed

lemma slug_props:
  "list_all (\<lambda>c. isLowerAlnum c \<or> c = CHR ''-'') (slug t)
   \<and> singleHyphens (slug t)
   \<and> (slug t = [] \<or> hd (slug t) \<noteq> CHR ''-'' \<and> last (slug t) \<noteq> CHR ''-'')
   \<and> length (slug t) \<le> 40
   \<and> slug t = trimHyphens (take 40 (replaceRuns (toLowerCase t)))"
proof -
  let ?r = "take 40 (replaceRuns (toLowerCase t))"
  have sh: "singleHyphens ?r"
    by (rule singleHyphens_take) (rule singleHyphens_replaceRuns)
  note p = stripHyphens_props [OF sh]
  have "set (slug t) \<subseteq> set (replaceRuns (toLowerCase t))"
    using p(3) set_take_subset [of 40 "replaceRuns (toLowerCase t)"] by (auto simp: slug_def)
  then have c: "list_all (\<lambda>c. isLowerAlnum c \<or> c = CHR ''-'') (slug t)"
    using replaceRuns_chars by (auto simp: list_all_iff)
  have l: "length (slug t) \<le> 40" using p(4) by (simp add: slug_def)
  from c p(1) p(2) l stripHyphens_trim [OF sh] show ?thesis by (auto simp: slug_def)
qed


text \<open>
  Claim C7. For every task and every worker name, \<^verbatim>\<open>generateBranchName\<close> returns
  \<^verbatim>\<open>feat/<slug>-<workerName>-<date>\<close>, where the date is eight digits (the clock being in a
  year from 0000 to 9999) and the slug is the lower-cased task with every run of
  characters outside \<^verbatim>\<open>[a-z0-9]\<close> replaced by one hyphen, cut to 40 characters and
  stripped of leading and trailing hyphens: it holds only lower-case letters, digits and
  single hyphens, neither starts nor ends with a hyphen, and has at most 40 characters.
  The empty task and a task of punctuation only give the empty slug.
\<close>

theorem generateBranchName_shape:
  "isoDatePrefix isoText \<Longrightarrow>
   generateBranchName isoText t workerName
     = ''feat/'' @ slug t @ ''-'' @ workerName @ ''-'' @ dateStamp isoText
   \<and> length (dateStamp isoText) = 8 \<and> list_all isDigit (dateStamp isoText)
   \<and> slug t = trimHyphens (take 40 (replaceRuns (toLowerCase t)))
   \<and> list_all (\<lambda>c. isLowerAlnum c \<or> c = CHR ''-'') (slug t)
   \<and> singleHyphens (slug t)
   \<and> (slug t = [] \<or> hd (slug t) \<noteq> CHR ''-'' \<and> last (slug t) \<noteq> CHR ''-'')
   \<and> length (slug t) \<le> 40"
proof -
  assume "isoDatePrefix isoText"
  then have "length (dateStamp isoText) = 8 \<and> list_all isDigit (dateStamp isoText)"
    by (rule dateStamp_digits)
  moreover have "generateBranchName isoText t workerName
     = ''feat/'' @ slug t @ ''-'' @ workerName @ ''-'' @ dateStamp isoText"
    by (simp add: generateBranchName_def)
  ultimately show ?thesis using slug_props [of t] by blast
qed

theorem generateBranchName_shape_witness:
  "isoDatePrefix ''2024-01-04T10:00:00.000Z''
   \<and> generateBranchName ''2024-01-04T10:00:00.000Z'' ''Fix: the LOGIN page!!'' ''swift-fox''
       = ''feat/fix-the-login-page-swift-fox-20240104''
   \<and> slug ''Fix: the LOGIN page!!'' = ''fix-the-login-page''
   \<and> dateStamp ''2024-01-04T10:00:00.000Z'' = ''20240104''
   \<and> generateBranchName ''2024-01-04T10:00:00.000Z'' [] ''swift-fox''
       = ''feat/-swift-fox-20240104''
   \<and> generateBranchName ''2024-01-04T10:00:00.000Z'' ''?!'' ''swift-fox''
       = ''feat/-swift-fox-20240104''"
proof -
  have h: "isoDatePrefix ''2024-01-04T10:00:00.000Z''"
    by (simp add: isoDatePrefix_def isDigit_def)
  have s: "slug ''Fix: the LOGIN page!!'' = ''fix-the-login-page''"
    by (simp add: slug_def toLowerCase_def toLowerChar_def isLowerAlnum_def stripHyphens_def)
  have s0: "slug [] = []"
    by (simp add: slug_def toLowerCase_def stripHyphens_def)
  have s1: "slug ''?!'' = []"
    by (simp add: slug_def toLowerCase_def toLowerChar_def isLowerAlnum_def stripHyphens_def)
  have d: "dateStamp ''2024-01-04T10:00:00.000Z'' = ''20240104''"
    by (simp add: dateStamp_def)
  from generateBranchName_shape [OF h, of "''Fix: the LOGIN page!!''" "''swift-fox''"]
    generateBranchName_shape [OF h, of "[]" "''swift-fox''"]
    generateBranchName_shape [OF h, of "''?!''" "''swift-fox''"]
  show ?thesis unfolding s s0 s1 d using h by simp
qed

section \<open>The registry under spawn and cleanup\<close>

lemma loadState_Stored [simp]: "loadState (Stored s) = s"
  by (simp add: loadState_def)

lemma loadState_saveState [simp]: "loadState (saveState s) = s"
  by (simp add: saveState_def)

lemma loadState_Missing [simp]: "loadState Missing = DEFAULT_STATE"
  by (simp add: loadState_def)

lemma DEFAULT_STATE_fields [simp]:
  "workers DEFAULT_STATE = []" "nextPortOffset DEFAULT_STATE = 0"
  "itermWindowId DEFAULT_STATE = None"
  by (simp_all add: DEFAULT_STATE_def)

lemma loadState_addWorker:
  "loadState (addWorker w file)
     = (loadState file)\<lparr>workers := workers (loadState file) @ [w],
                         nextPortOffset := nextPortOffset (loadState file) + 1\<rparr>"
  by (simp add: addWorker_def Let_def)

lemma find_None_updateFirst: "find P ws = None \<Longrightarrow> updateFirst P f ws = ws"
  by (induction ws) (auto split: if_splits)

lemma loadState_updateWorkerStatus:
  "loadState (updateWorkerStatus n st u file)
     = (loadState file)\<lparr>workers :=
          updateFirst (matches n)
            (\<lambda>w. (case u of None \<Rightarrow> (\<lambda>v. v) | Some g \<Rightarrow> g) (w\<lparr>status := st\<rparr>))
            (workers (loadState file))\<rparr>"
  by (cases "find (matches n) (workers (loadState file))")
     (simp_all add: updateWorkerStatus_def Let_def find_None_updateFirst)

lemma map_updateFirst:
  "(\<And>w. h (f w) = h w) \<Longrightarrow> map h (updateFirst P f ws) = map h ws"
  by (induction ws) auto

lemma length_updateFirst [simp]: "length (updateFirst P f ws) = length ws"
  by (induction ws) auto

lemma loadState_clear:
  "loadState (clearItermWindowId file) = (loadState file)\<lparr>itermWindowId := None\<rparr>"
  by (simp add: clearItermWindowId_def)

lemma removeWorker_cases:
  "snd (removeWorker n file) = file
   \<or> (\<exists>ws. loadState (snd (removeWorker n file)) = (loadState file)\<lparr>workers := ws\<rparr>)"
  by (cases "findIndex (matches n) (workers (loadState file))")
     (auto simp: removeWorker_def Let_def)

lemma removeWorker_offset [simp]:
  "nextPortOffset (loadState (snd (removeWorker n file))) = nextPortOffset (loadState file)"
  using removeWorker_cases [of n "file"] by auto

lemma removeWorker_hint [simp]:
  "itermWindowId (loadState (snd (removeWorker n file))) = itermWindowId (loadState file)"
  using removeWorker_cases [of n "file"] by auto

lemma spawnSingleWorker_file:
  "loadState (fst (snd (spawnSingleWorker env url t options b file)))
     = (if \<not> persists env then loadState file
        else if succeeds env then
          loadState (updateWorkerStatus (name (newWorker env url t options file)) Running
            (Some (\<lambda>w. w\<lparr>terminalTab := openWorkerTabResult env\<rparr>))
            (addWorker (newWorker env url t options file) file))
        else loadState (addWorker (newWorker env url t options file) file))"
  by (auto simp: spawnSingleWorker_def persists_def succeeds_def Let_def split: option.splits)

lemma spawnSingleWorker_outcome:
  "fst (spawnSingleWorker env url t options b file) = (if succeeds env then Returned else Exited)"
  by (auto simp: spawnSingleWorker_def persists_def succeeds_def Let_def split: option.splits)

lemma spawnSingleWorker_hint:
  "itermWindowId (loadState (fst (snd (spawnSingleWorker env url t options b file))))
     = itermWindowId (loadState file)"
  by (simp add: spawnSingleWorker_file loadState_updateWorkerStatus loadState_addWorker)

lemma spawnSingleWorker_offset:
  "nextPortOffset (loadState (fst (snd (spawnSingleWorker env url t options b file))))
     = nextPortOffset (loadState file) + (if persists env then 1 else 0)"
  by (simp add: spawnSingleWorker_file loadState_updateWorkerStatus loadState_addWorker)

lemma port_newWorker: "port (newWorker env url t options file) = getNextPort file"
  by (simp add: newWorker_def Let_def)

lemma status_newWorker: "status (newWorker env url t options file) = SettingUp"
  by (simp add: newWorker_def Let_def)

lemma name_newWorker:
  "name (newWorker env url t options file)
     = generateWorkerName (draw env) (now env) (map name (getAllWorkers file))"
  by (simp add: newWorker_def Let_def)

lemma spawnSingleWorker_ports:
  "map port (workers (loadState (fst (snd (spawnSingleWorker env url t options b file)))))
     = map port (workers (loadState file)) @ (if persists env then [getNextPort file] else [])"
  by (simp add: spawnSingleWorker_file loadState_updateWorkerStatus loadState_addWorker
      map_updateFirst port_newWorker)

lemma spawnSingleWorker_names:
  "map name (workers (loadState (fst (snd (spawnSingleWorker env url t options b file)))))
     = map name (workers (loadState file))
       @ (if persists env then [name (newWorker env url t options file)] else [])"
  by (simp add: spawnSingleWorker_file loadState_updateWorkerStatus loadState_addWorker
      map_updateFirst)

lemma spawn_from_step:
  "spawn_from envs url options i (t # ts) file =
     (if succeeds (envs i) then
        (fst (spawn_from envs url options (Suc i) ts
                (fst (snd (spawnSingleWorker (envs i) url t options (i = 0) file)))),
         fst (snd (spawn_from envs url options (Suc i) ts
                (fst (snd (spawnSingleWorker (envs i) url t options (i = 0) file))))),
         snd (snd (spawnSingleWorker (envs i) url t options (i = 0) file))
           @ snd (snd (spawn_from envs url options (Suc i) ts
                (fst (snd (spawnSingleWorker (envs i) url t options (i = 0) file))))))
      else
        (Exited, fst (snd (spawnSingleWorker (envs i) url t options (i = 0) file)),
         snd (snd (spawnSingleWorker (envs i) url t options (i = 0) file))))"
proof -
  obtain out f1 a where r: "spawnSingleWorker (envs i) url t options (i = 0) file = (out, f1, a)"
    by (cases "spawnSingleWorker (envs i) url t options (i = 0) file") auto
  with spawnSingleWorker_outcome [of "envs i" url t options "i = 0" "file"]
  have o: "out = (if succeeds (envs i) then Returned else Exited)" by simp
  show ?thesis unfolding spawn_from.simps r using o by (simp split: prod.splits)
qed

lemma spawn_from_hint:
  "itermWindowId (loadState (fst (snd (spawn_from envs url options i ts file))))
     = itermWindowId (loadState file)"
proof (induction ts arbitrary: i "file")
  case Nil show ?case by simp
next
  case (Cons t ts)
  show ?case unfolding spawn_from_step
    by (simp add: Cons.IH spawnSingleWorker_hint)
qed

lemma succeeds_persists: "succeeds env \<Longrightarrow> persists env"
  by (simp add: succeeds_def)

lemma spawn_from_offset:
  "nextPortOffset (loadState (fst (snd (spawn_from envs url options i ts file))))
     = nextPortOffset (loadState file) + int (persisted_from envs i ts)"
proof (induction ts arbitrary: i "file")
  case Nil show ?case by simp
next
  case (Cons t ts)
  show ?case
    unfolding spawn_from_step
    by (simp add: Cons.IH spawnSingleWorker_offset succeeds_persists)
qed

lemma persisted_from_succeeded:
  "\<not> orphans_from envs i ts \<Longrightarrow> persisted_from envs i ts = succeeded_from envs i ts"
  by (induction ts arbitrary: i) (auto split: if_splits)

lemma portsFrom_0 [simp]: "portsFrom k 0 = []"
  by (simp add: portsFrom_def)

lemma portsFrom_Suc: "portsFrom k (Suc n) = (basePort + k * portIncrement) # portsFrom (k + 1) n"
proof -
  have "[0..<Suc n] = 0 # map Suc [0..<n]"
    by (simp add: upt_conv_Cons map_Suc_upt del: upt_Suc)
  then show ?thesis by (simp add: portsFrom_def comp_def algebra_simps del: upt_Suc)
qed

lemma portsFrom_append: "portsFrom k (m + n) = portsFrom k m @ portsFrom (k + int m) n"
proof (induction m arbitrary: k)
  case 0 show ?case by simp
next
  case (Suc m)
  have "portsFrom k (Suc m + n) = (basePort + k * portIncrement) # portsFrom (k + 1) (m + n)"
    by (simp add: portsFrom_Suc)
  also have "\<dots> = (basePort + k * portIncrement) # portsFrom (k + 1) m @ portsFrom (k + 1 + int m) n"
    by (simp add: Suc.IH)
  finally show ?case by (simp add: portsFrom_Suc add.commute add.left_commute)
qed

lemma spawn_from_ports:
  "map port (workers (loadState (fst (snd (spawn_from envs url options i ts file)))))
     = map port (workers (loadState file))
       @ portsFrom (nextPortOffset (loadState file)) (persisted_from envs i ts)"
proof (induction ts arbitrary: i "file")
  case Nil show ?case by simp
next
  case (Cons t ts)
  show ?case
    unfolding spawn_from_step
    by (simp add: Cons.IH spawnSingleWorker_offset spawnSingleWorker_ports succeeds_persists
        portsFrom_Suc getNextPort_def)
qed

lemma deleteDirectory_throws: "fst (deleteDirectory env w) = deleteThrows env"
  by (simp add: deleteDirectory_def deleteThrows_def)

lemma cleanupAll_from_step:
  "cleanupAll_from envs i (w # rest) file c f =
     (fst (cleanupAll_from envs (Suc i) rest
             (if deleteThrows (envs i) then file else snd (removeWorker (id_w w) file))
             (if deleteThrows (envs i) then c else c + 1)
             (if deleteThrows (envs i) then f + 1 else f)),
      fst (snd (cleanupAll_from envs (Suc i) rest
             (if deleteThrows (envs i) then file else snd (removeWorker (id_w w) file))
             (if deleteThrows (envs i) then c else c + 1)
             (if deleteThrows (envs i) then f + 1 else f))),
      fst (snd (snd (cleanupAll_from envs (Suc i) rest
             (if deleteThrows (envs i) then file else snd (removeWorker (id_w w) file))
             (if deleteThrows (envs i) then c else c + 1)
             (if deleteThrows (envs i) then f + 1 else f)))),
      closeTerminal (envs i) 200 w @ snd (deleteDirectory (envs i) w)
        @ snd (snd (snd (cleanupAll_from envs (Suc i) rest
             (if deleteThrows (envs i) then file else snd (removeWorker (id_w w) file))
             (if deleteThrows (envs i) then c else c + 1)
             (if deleteThrows (envs i) then f + 1 else f)))))"
proof -
  obtain thr a2 where d: "deleteDirectory (envs i) w = (thr, a2)"
    by (cases "deleteDirectory (envs i) w") auto
  with deleteDirectory_throws [of "envs i" w] have t: "thr = deleteThrows (envs i)" by simp
  show ?thesis unfolding cleanupAll_from.simps d Let_def using t
    by (simp split: prod.splits)
qed

lemma cleanupAll_from_offset:
  "nextPortOffset (loadState (fst (cleanupAll_from envs i ws file c f)))
     = nextPortOffset (loadState file)"
proof (induction ws arbitrary: i "file" c f)
  case Nil show ?case by simp
next
  case (Cons w ws)
  show ?case unfolding cleanupAll_from_step by (simp add: Cons.IH)
qed

lemma cleanupAll_from_hint:
  "itermWindowId (loadState (fst (cleanupAll_from envs i ws file c f)))
     = itermWindowId (loadState file)"
proof (induction ws arbitrary: i "file" c f)
  case Nil show ?case by simp
next
  case (Cons w ws)
  show ?case unfolding cleanupAll_from_step by (simp add: Cons.IH)
qed

lemma cleanupAll_offset:
  "nextPortOffset (loadState (fst (snd (cleanupAll envs force file))))
     = nextPortOffset (loadState file)"
  by (simp add: cleanupAll_def Let_def loadState_clear cleanupAll_from_offset split: prod.splits)
     (metis cleanupAll_from_offset fst_conv)

lemma cleanupAll_hint:
  "itermWindowId (loadState (fst (snd (cleanupAll envs force file))))
     = (if force \<and> getAllWorkers file \<noteq> [] then None else itermWindowId (loadState file))"
  by (simp add: cleanupAll_def Let_def loadState_clear split: prod.splits)

lemma cleanup_offset:
  "nextPortOffset (loadState (fst (snd (cleanup envs n options file))))
     = nextPortOffset (loadState file)"
  by (simp add: cleanup_def cleanupAll_offset Let_def loadState_clear
      split: option.splits prod.splits)

lemma cleanup_hint:
  "itermWindowId (loadState (fst (snd (cleanup envs n options file)))) = None
   \<or> itermWindowId (loadState (fst (snd (cleanup envs n options file))))
       = itermWindowId (loadState file)"
  by (simp add: cleanup_def cleanupAll_hint Let_def loadState_clear
      split: option.splits prod.splits)

lemma exec_offset:
  "nextPortOffset (loadState (fst (snd (exec c file))))
     = nextPortOffset (loadState file) + int (persisted c)"
  by (cases c) (simp_all add: spawn_def spawn_from_offset cleanup_offset)

lemma persisted_succeeded: "\<not> orphans c \<Longrightarrow> persisted c = succeeded c"
  by (cases c) (simp_all add: persisted_from_succeeded)

lemma exec_hint:
  "itermWindowId (loadState (fst (snd (exec c file)))) = None
   \<or> itermWindowId (loadState (fst (snd (exec c file)))) = itermWindowId (loadState file)"
  by (cases c) (simp_all add: spawn_def spawn_from_hint cleanup_hint)

lemma exec_ports:
  "isSpawn c \<Longrightarrow>
   map port (workers (loadState (fst (snd (exec c file)))))
     = map port (workers (loadState file))
       @ portsFrom (nextPortOffset (loadState file)) (persisted c)"
  by (cases c) (simp_all add: spawn_def spawn_from_ports)

lemma run_offset:
  "nextPortOffset (loadState (run h file))
     = nextPortOffset (loadState file) + int (sum_list (map persisted h))"
proof (induction h arbitrary: "file")
  case Nil show ?case by simp
next
  case (Cons c h)
  then show ?case by (simp add: exec_offset)
qed

lemma run_ports:
  "\<forall>c \<in> set h. isSpawn c \<Longrightarrow>
   map port (workers (loadState (run h file)))
     = map port (workers (loadState file))
       @ portsFrom (nextPortOffset (loadState file)) (sum_list (map persisted h))"
proof (induction h arbitrary: "file")
  case Nil show ?case by simp
next
  case (Cons c h)
  then show ?case by (simp add: exec_offset exec_ports portsFrom_append)
qed

lemma sum_persisted_succeeded:
  "\<forall>c \<in> set h. \<not> orphans c \<Longrightarrow>
   sum_list (map persisted h) = sum_list (map succeeded h)"
  by (induction h) (simp_all add: persisted_succeeded)

lemma run_hint:
  "itermWindowId (loadState file) = None \<Longrightarrow> itermWindowId (loadState (run h file)) = None"
proof (induction h arbitrary: "file")
  case Nil then show ?case by simp
next
  case (Cons c h)
  from exec_hint [of c "file"] Cons.prems
  have "itermWindowId (loadState (fst (snd (exec c file)))) = None" by auto
  from Cons.IH [OF this] show ?case by simp
qed

lemma distinct_portsFrom: "distinct (portsFrom k n)"
  by (simp add: portsFrom_def distinct_map inj_on_def basePort_def portIncrement_def)

lemma spawnSingleWorker_orphan:
  assumes "persists env" and "\<not> succeeds env"
  shows "fst (spawnSingleWorker env url t options b file) = Exited"
    and "workers (loadState (fst (snd (spawnSingleWorker env url t options b file))))
           = workers (loadState file) @ [newWorker env url t options file]"
    and "nextPortOffset (loadState (fst (snd (spawnSingleWorker env url t options b file))))
           = nextPortOffset (loadState file) + 1"
  using assms
  by (simp_all add: spawnSingleWorker_outcome spawnSingleWorker_file loadState_addWorker)

lemma updateFirst_last:
  "\<forall>x \<in> set xs. \<not> P x \<Longrightarrow> P y \<Longrightarrow> updateFirst P f (xs @ [y]) = xs @ [f y]"
  by (induction xs) auto

lemma spawnSingleWorker_running:
  assumes "succeeds env"
    and "\<forall>w \<in> set (workers (loadState file)).
           \<not> matches (name (newWorker env url t options file)) w"
  shows "map status (workers (loadState (fst (snd (spawnSingleWorker env url t options b file)))))
           = map status (workers (loadState file)) @ [Running]"
proof -
  have m: "matches (name (newWorker env url t options file)) (newWorker env url t options file)"
    by (simp add: matches_def)
  show ?thesis
    using assms(1) succeeds_persists [OF assms(1)]
    by (simp add: spawnSingleWorker_file loadState_updateWorkerStatus loadState_addWorker
        updateFirst_last [OF assms(2) m])
qed

lemma spawn_one_task:
  assumes "task_opt options = [t]"
  shows "fst (snd (spawn envs url options file))
           = fst (snd (spawnSingleWorker (envs 0) url t options True file))"
  unfolding spawn_def assms spawn_from_step by simp

lemma spawn_two_tasks:
  assumes "task_opt options = [t1, t2]" and "succeeds (envs 0)"
  shows "fst (snd (spawn envs url options file))
           = fst (snd (spawnSingleWorker (envs (Suc 0)) url t2 options False
               (fst (snd (spawnSingleWorker (envs 0) url t1 options True file)))))"
  unfolding spawn_def assms(1) spawn_from_step using assms(2) by simp

lemma generateWorkerName_first_draw:
  "candidate (d 0) \<notin> set ex \<Longrightarrow> generateWorkerName d n ex = candidate (d 0)"
  unfolding generateWorkerName_def by (subst generateWorkerName_from.simps) simp

lemma spawnSingleWorker_new_name:
  assumes "persists env"
    and "candidate (draw env 0) \<notin> set (map name (workers (loadState file)))"
  shows "map name (workers (loadState (fst (snd (spawnSingleWorker env url t options b file)))))
           = map name (workers (loadState file)) @ [candidate (draw env 0)]"
  using assms
  by (simp add: spawnSingleWorker_names name_newWorker getAllWorkers_def
      generateWorkerName_first_draw)

text \<open>Facts about the examples.\<close>

lemma candidate_drawAt:
  "candidate (drawAt 0 i) = ''swift-fox''"
  "candidate (drawAt (Suc 0) i) = ''brave-owl''"
  "candidate (drawAt 2 i) = ''calm-eagle''" "candidate (alwaysFirst i) = ''swift-fox''"
  by (simp_all add: candidate_def drawAt_def alwaysFirst_def adjectives_def animals_def)

lemma draw_examples:
  "draw (envsFrom k i) = drawAt (k + i)" "draw (envsTabFails i) = alwaysFirst"
  "nanoid (envsTabFails i) = ''V1StGXR8aZ''"
  by (simp_all add: envsFrom_def envNamed_def envsTabFails_def envTabFails_def envOk_def)

lemma succeeds_envOk: "succeeds envOk" "persists envOk"
  by (simp_all add: succeeds_def persists_def envOk_def)

lemma succeeds_envsFrom: "succeeds (envsFrom k i)" "persists (envsFrom k i)"
  by (simp_all add: succeeds_def persists_def envsFrom_def envNamed_def envOk_def)

lemma not_persists_envsCloneFailsAt:
  "\<not> persists (envsCloneFailsAt k i)" "\<not> succeeds (envsCloneFailsAt k i)"
  by (simp_all add: succeeds_def persists_def envsCloneFailsAt_def envNamed_def envOk_def)

lemma envsTabFails_orphans: "persists (envsTabFails i)" "\<not> succeeds (envsTabFails i)"
  by (simp_all add: envsTabFails_def succeeds_def persists_def envTabFails_def envOk_def)

lemma envTabFails_orphans: "persists envTabFails" "\<not> succeeds envTabFails"
  by (simp_all add: succeeds_def persists_def envTabFails_def envOk_def)

lemma cleanup_registryA:
  "cleanup cenvsOk (Some ''swift-fox'') coptsOne registryA
     = (Returned, Stored \<lparr>workers = [], nextPortOffset = 1, itermWindowId = None\<rparr>,
        [SendToItermSession ''4711'' ctrlC, Sleep 500, CloseItermTab ''4711'',
         RmSync ''/home/u/.parallel-claude/workers/swift-fox''])"
  by (simp add: cleanup_def coptsOne_def registryA_def getWorker_def matches_def workerA_def
      closeTerminal_def deleteDirectory_def cenvsOk_def cenvOk_def removeWorker_def
      getAllWorkers_def clearItermWindowId_def saveState_def Let_def)

section \<open>Ports\<close>

text \<open>
  Claim C3, as stated, fails. A spawn in which \<^verbatim>\<open>openWorkerTab\<close> throws has persisted its
  record: on a fresh registry it leaves \<open>nextPortOffset\<close> 1 with no successful spawn;
  and the one successful spawn of a history that goes on with a good spawn gets the port
  3110, the second record of the registry.
\<close>

theorem failed_spawn_takes_a_port:
  "sum_list (map succeeded historyOrphan) = 0
   \<and> nextPortOffset (loadState (run historyOrphan Missing)) = 1
   \<and> sum_list (map succeeded historyOrphanThenOk) = 1
   \<and> list_all isSpawn historyOrphanThenOk
   \<and> map port (workers (loadState (run historyOrphanThenOk Missing))) = [3100, 3110]
   \<and> map status (workers (loadState (run historyOrphanThenOk Missing))) = [SettingUp, Running]"
proof -
  have t: "task_opt optionsA = [''Fix login'']" by (simp add: optionsA_def)
  have s1: "sum_list (map succeeded historyOrphan) = 0"
    by (simp add: historyOrphan_def t envsTabFails_orphans)
  have p1: "sum_list (map persisted historyOrphan) = 1"
    by (simp add: historyOrphan_def t envsTabFails_orphans)
  have o1: "nextPortOffset (loadState (run historyOrphan Missing)) = 1"
    unfolding run_offset p1 by simp
  have s2: "sum_list (map succeeded historyOrphanThenOk) = 1"
    by (simp add: historyOrphanThenOk_def t envsTabFails_orphans succeeds_envsFrom)
  have p2: "sum_list (map persisted historyOrphanThenOk) = 2"
    by (simp add: historyOrphanThenOk_def t envsTabFails_orphans succeeds_envsFrom)
  have a2: "list_all isSpawn historyOrphanThenOk"
    by (simp add: historyOrphanThenOk_def)
  then have "\<forall>c \<in> set historyOrphanThenOk. isSpawn c" by (simp add: list_all_iff)
  from run_ports [OF this, of Missing]
  have q2: "map port (workers (loadState (run historyOrphanThenOk Missing))) = [3100, 3110]"
    unfolding p2
    by (simp add: portsFrom_def basePort_def portIncrement_def upt_rec)
  let ?f1 = "fst (snd (spawnSingleWorker (envsTabFails 0) repoA ''Fix login'' optionsA True
                 Missing))"
  let ?w1 = "newWorker (envsTabFails 0) repoA ''Fix login'' optionsA Missing"
  let ?w2 = "newWorker (envsFrom (Suc 0) 0) repoA ''Fix login'' optionsA ?f1"
  have r: "run historyOrphanThenOk Missing
             = fst (snd (spawnSingleWorker (envsFrom (Suc 0) 0) repoA ''Fix login'' optionsA
                 True ?f1))"
    by (simp add: historyOrphanThenOk_def spawn_one_task [OF t])
  have w1: "workers (loadState ?f1) = [?w1]"
    using spawnSingleWorker_orphan(2) [OF envsTabFails_orphans, of 0 repoA "''Fix login''"
        optionsA True Missing]
    by simp
  have n1: "name ?w1 = ''swift-fox''"
    by (simp add: name_newWorker getAllWorkers_def draw_examples candidate_drawAt
        generateWorkerName_first_draw)
  have i1: "id_w ?w1 = ''V1StGXR8aZ''"
    by (simp add: newWorker_def Let_def draw_examples)
  have n2: "name ?w2 = ''brave-owl''"
    using w1 n1
    by (simp add: name_newWorker getAllWorkers_def draw_examples candidate_drawAt
        generateWorkerName_first_draw)
  have fresh: "\<forall>w \<in> set (workers (loadState ?f1)). \<not> matches (name ?w2) w"
    unfolding w1 n2 by (simp add: matches_def n1 i1)
  have st: "map status (workers (loadState (run historyOrphanThenOk Missing)))
              = [SettingUp, Running]"
    unfolding r spawnSingleWorker_running [OF succeeds_envsFrom(1) fresh] w1
    by (simp add: status_newWorker)
  from s1 o1 s2 a2 q2 st show ?thesis by blast
qed

text \<open>
  Claim C3, amended. After every history of spawns and clean-ups, \<open>nextPortOffset\<close> has
  grown by the number of records persisted in it: one for each spawn attempt that reached
  \<^verbatim>\<open>addWorker\<close>, whether or not it failed afterwards, none for an attempt that failed
  before, none for a clean-up. When the history holds no clean-up, the ports of the
  records added are \<open>basePort + (k + i) * portIncrement\<close> for \<open>i\<close> from 0 below that
  number, in the order of creation, \<open>k\<close> being the offset at the start. When every failed
  attempt of the history failed before its record was persisted, the number of records
  persisted is the number of successful spawns. On a fresh registry \<open>nextPortOffset\<close> is
  the number of records persisted and the ports are \<open>basePort + i * portIncrement\<close>,
  without duplicates.
\<close>

theorem port_allocation:
  "nextPortOffset (loadState (run h file))
     = nextPortOffset (loadState file) + int (sum_list (map persisted h))
   \<and> ((\<forall>c \<in> set h. isSpawn c) \<longrightarrow>
        map port (workers (loadState (run h file)))
          = map port (workers (loadState file))
            @ portsFrom (nextPortOffset (loadState file)) (sum_list (map persisted h)))
   \<and> ((\<forall>c \<in> set h. \<not> orphans c) \<longrightarrow>
        sum_list (map persisted h) = sum_list (map succeeded h))
   \<and> (loadState file = DEFAULT_STATE \<longrightarrow>
        nextPortOffset (loadState (run h file)) = int (sum_list (map persisted h))
        \<and> ((\<forall>c \<in> set h. isSpawn c) \<longrightarrow>
             map port (workers (loadState (run h file)))
               = map (\<lambda>i. basePort + int i * portIncrement) [0..<sum_list (map persisted h)]
             \<and> distinct (map port (workers (loadState (run h file))))))"
proof -
  let ?N = "sum_list (map persisted h)"
  have off: "nextPortOffset (loadState (run h file)) = nextPortOffset (loadState file) + int ?N"
    by (rule run_offset)
  have ports: "map port (workers (loadState (run h file)))
          = map port (workers (loadState file)) @ portsFrom (nextPortOffset (loadState file)) ?N"
    if "\<forall>c \<in> set h. isSpawn c"
    using that by (rule run_ports)
  have count: "?N = sum_list (map succeeded h)" if "\<forall>c \<in> set h. \<not> orphans c"
    using that by (rule sum_persisted_succeeded)
  have fresh: "map port (workers (loadState (run h file)))
               = map (\<lambda>i. basePort + int i * portIncrement) [0..<?N]
             \<and> distinct (map port (workers (loadState (run h file))))"
    if "loadState file = DEFAULT_STATE" "\<forall>c \<in> set h. isSpawn c"
  proof -
    have "map port (workers (loadState (run h file))) = portsFrom 0 ?N"
      using ports [OF that(2)] that(1) by (simp add: DEFAULT_STATE_def)
    then show ?thesis using distinct_portsFrom [of 0 ?N] by (simp add: portsFrom_def)
  qed
  have off0: "nextPortOffset (loadState (run h file)) = int ?N" if "loadState file = DEFAULT_STATE"
    using off that by (simp add: DEFAULT_STATE_def)
  from off ports count fresh off0 show ?thesis by blast
qed

theorem port_allocation_witness:
  "list_all isSpawn historyA
   \<and> sum_list (map succeeded historyA) = 3
   \<and> sum_list (map persisted historyA) = 3
   \<and> nextPortOffset (loadState (run historyA Missing)) = 3
   \<and> map port (workers (loadState (run historyA Missing))) = [3100, 3110, 3120]
   \<and> distinct (map port (workers (loadState (run historyA Missing))))
   \<and> map name (workers (loadState (run historyA Missing)))
       = [''swift-fox'', ''brave-owl'', ''calm-eagle'']"
proof -
  have t: "task_opt optionsA = [''Fix login'']"
    "task_opt optionsAB = [''Fix login'', ''Add tests'']"
    by (simp_all add: optionsA_def optionsAB_def)
  have h1: "\<forall>c \<in> set historyA. \<not> orphans c"
    by (simp add: historyA_def t succeeds_envsFrom not_persists_envsCloneFailsAt)
  have h2: "\<forall>c \<in> set historyA. isSpawn c"
    by (simp add: historyA_def)
  have h3: "loadState Missing = DEFAULT_STATE" by simp
  have n: "sum_list (map succeeded historyA) = 3"
    by (simp add: historyA_def t succeeds_envsFrom not_persists_envsCloneFailsAt)
  have u: "[0..<3] = [0, 1, 2]" by (simp add: upt_rec)
  from port_allocation [of historyA Missing] h1 h2 h3
  have "sum_list (map persisted historyA) = sum_list (map succeeded historyA)
      \<and> nextPortOffset (loadState (run historyA Missing))
          = int (sum_list (map persisted historyA))
      \<and> map port (workers (loadState (run historyA Missing)))
          = map (\<lambda>i. basePort + int i * portIncrement) [0..<sum_list (map persisted historyA)]
      \<and> distinct (map port (workers (loadState (run historyA Missing))))"
    by blast
  note r = this
  from r n have p: "sum_list (map persisted historyA) = 3" by simp
  from r have main: "sum_list (map persisted historyA) = 3
      \<and> nextPortOffset (loadState (run historyA Missing)) = 3
      \<and> map port (workers (loadState (run historyA Missing))) = [3100, 3110, 3120]
      \<and> distinct (map port (workers (loadState (run historyA Missing))))"
    unfolding p u by (simp add: basePort_def portIncrement_def)
  let ?f1 = "fst (snd (spawnSingleWorker (envsFrom 0 0) repoA ''Fix login'' optionsAB True
                 Missing))"
  let ?f2 = "fst (snd (spawnSingleWorker (envsFrom 0 (Suc 0)) repoA ''Add tests'' optionsAB False
                 ?f1))"
  let ?f3 = "fst (snd (spawnSingleWorker (envsCloneFailsAt 3 0) repoA ''Fix login'' optionsA True
                 ?f2))"
  let ?f4 = "fst (snd (spawnSingleWorker (envsFrom 2 0) repoA ''Fix login'' optionsA True ?f3))"
  have r: "run historyA Missing = ?f4"
    by (simp add: historyA_def spawn_one_task [OF t(1)]
        spawn_two_tasks [OF t(2) succeeds_envsFrom(1)])
  have d: "draw (envsFrom 0 0) = drawAt 0" "draw (envsFrom 0 (Suc 0)) = drawAt (Suc 0)"
    "draw (envsFrom 2 0) = drawAt 2"
    by (simp_all add: draw_examples)
  have c1: "candidate (draw (envsFrom 0 0) 0) \<notin> set (map name (workers (loadState Missing)))"
    by simp
  have k1: "map name (workers (loadState ?f1)) = [''swift-fox'']"
    unfolding spawnSingleWorker_new_name [OF succeeds_envsFrom(2) c1] d candidate_drawAt
    by simp
  have c2: "candidate (draw (envsFrom 0 (Suc 0)) 0) \<notin> set (map name (workers (loadState ?f1)))"
    unfolding k1 d candidate_drawAt by simp
  have k2: "map name (workers (loadState ?f2)) = [''swift-fox'', ''brave-owl'']"
    unfolding spawnSingleWorker_new_name [OF succeeds_envsFrom(2) c2] k1 d candidate_drawAt
    by simp
  have "map name (workers (loadState ?f3)) = map name (workers (loadState ?f2))"
    unfolding spawnSingleWorker_names
    by (simp add: not_persists_envsCloneFailsAt)
  then have k3: "map name (workers (loadState ?f3)) = [''swift-fox'', ''brave-owl'']"
    unfolding k2 .
  have c4: "candidate (draw (envsFrom 2 0) 0) \<notin> set (map name (workers (loadState ?f3)))"
    unfolding k3 d candidate_drawAt by simp
  have k4: "map name (workers (loadState ?f4)) = [''swift-fox'', ''brave-owl'', ''calm-eagle'']"
    unfolding spawnSingleWorker_new_name [OF succeeds_envsFrom(2) c4] k3 d candidate_drawAt
    by simp
  have names: "map name (workers (loadState (run historyA Missing)))
       = [''swift-fox'', ''brave-owl'', ''calm-eagle'']"
    unfolding r by (rule k4)
  from h2 have "list_all isSpawn historyA" by (simp add: list_all_iff)
  with n main names show ?thesis by blast
qed

section \<open>The shared-window handle\<close>

text \<open>
  Claim C1, as stated, fails: the first spawn on a fresh registry succeeds and leaves a
  registry with a worker and no shared-window handle.
\<close>

theorem first_spawn_sets_no_hint:
  "fst (spawn envsOk repoA optionsA Missing) = Returned
   \<and> workers (loadState (fst (snd (spawn envsOk repoA optionsA Missing)))) \<noteq> []
   \<and> itermWindowId (loadState (fst (snd (spawn envsOk repoA optionsA Missing)))) = None"
proof -
  have s: "succeeds (envsOk 0)" by (simp add: envsOk_def succeeds_envOk)
  have t: "task_opt optionsA = [''Fix login'']" by (simp add: optionsA_def)
  have o: "fst (spawn envsOk repoA optionsA Missing) = Returned"
    unfolding spawn_def t spawn_from_step using s by simp
  have "map port (workers (loadState (fst (snd (spawn envsOk repoA optionsA Missing))))) \<noteq> []"
    unfolding spawn_def t spawn_from_step using s
    by (simp add: spawnSingleWorker_ports succeeds_persists)
  then have w: "workers (loadState (fst (snd (spawn envsOk repoA optionsA Missing)))) \<noteq> []"
    by auto
  have "itermWindowId (loadState (fst (snd (spawn envsOk repoA optionsA Missing))))
          = itermWindowId (loadState Missing)"
    unfolding spawn_def by (rule spawn_from_hint)
  then have i: "itermWindowId (loadState (fst (snd (spawn envsOk repoA optionsA Missing)))) = None"
    by (simp add: loadState_def DEFAULT_STATE_def)
  from o w i show ?thesis by blast
qed

text \<open>
  Claim C1, amended. A spawn never changes the shared-window handle, so it does not
  establish it: from a fresh registry the handle is undefined after every history of
  spawns and clean-ups. A clean-up that returns (of one worker, or a forced one of all of
  a non-empty registry) and leaves no worker leaves the handle undefined.
\<close>

theorem shared_window_hint:
  "itermWindowId (loadState (fst (snd (spawnSingleWorker env url t options b file))))
     = itermWindowId (loadState file)
   \<and> itermWindowId (loadState (fst (snd (spawn envs url options file))))
       = itermWindowId (loadState file)
   \<and> itermWindowId (loadState (run h Missing)) = None
   \<and> (fst (cleanup cenvs n copts file) = Returned
        \<and> (all_opt copts \<longrightarrow> force_opt copts \<and> getAllWorkers file \<noteq> [])
        \<and> getAllWorkers (fst (snd (cleanup cenvs n copts file))) = []
      \<longrightarrow> itermWindowId (loadState (fst (snd (cleanup cenvs n copts file)))) = None)"
proof (intro conjI impI)
  show "itermWindowId (loadState (fst (snd (spawnSingleWorker env url t options b file))))
     = itermWindowId (loadState file)" by (rule spawnSingleWorker_hint)
  show "itermWindowId (loadState (fst (snd (spawn envs url options file))))
       = itermWindowId (loadState file)" unfolding spawn_def by (rule spawn_from_hint)
  show "itermWindowId (loadState (run h Missing)) = None"
    by (rule run_hint) (simp add: loadState_def DEFAULT_STATE_def)
next
  assume a: "fst (cleanup cenvs n copts file) = Returned
        \<and> (all_opt copts \<longrightarrow> force_opt copts \<and> getAllWorkers file \<noteq> [])
        \<and> getAllWorkers (fst (snd (cleanup cenvs n copts file))) = []"
  show "itermWindowId (loadState (fst (snd (cleanup cenvs n copts file)))) = None"
  proof (cases "all_opt copts")
    case True
    with a show ?thesis by (simp add: cleanup_def cleanupAll_hint)
  next
    case False
    with a show ?thesis
      by (auto simp: cleanup_def Let_def loadState_clear getAllWorkers_def
          split: option.splits prod.splits if_splits)
  qed
qed

theorem shared_window_hint_witness:
  "fst (cleanup cenvsOk (Some ''swift-fox'') coptsOne registryA) = Returned
   \<and> getAllWorkers (fst (snd (cleanup cenvsOk (Some ''swift-fox'') coptsOne registryA))) = []
   \<and> itermWindowId (loadState registryA) = Some ''4711''
   \<and> itermWindowId
        (loadState (fst (snd (cleanup cenvsOk (Some ''swift-fox'') coptsOne registryA)))) = None
   \<and> itermWindowId (loadState (fst (snd (spawn envsOk repoA optionsA registryA))))
        = Some ''4711''"
proof -
  have h1: "fst (cleanup cenvsOk (Some ''swift-fox'') coptsOne registryA) = Returned"
    by (simp add: cleanup_registryA)
  have h2: "all_opt coptsOne \<longrightarrow> force_opt coptsOne \<and> getAllWorkers registryA \<noteq> []"
    by (simp add: coptsOne_def)
  have h3: "getAllWorkers (fst (snd (cleanup cenvsOk (Some ''swift-fox'') coptsOne registryA))) = []"
    by (simp add: cleanup_registryA getAllWorkers_def)
  have h4: "itermWindowId (loadState registryA) = Some ''4711''"
    by (simp add: registryA_def)
  from shared_window_hint [of envOk repoA "[]" optionsA True registryA envsOk "[]"
      cenvsOk "Some ''swift-fox''" coptsOne] h1 h2 h3 h4
  show ?thesis by simp
qed

section \<open>A spawn that fails after the record was written\<close>

text \<open>
  Claim C2, amended. When a spawn fails after the worker record has been written
  (\<^verbatim>\<open>ensureItermRunning\<close> or \<^verbatim>\<open>openWorkerTab\<close> throws), the process exits and the registry
  stays as \<^verbatim>\<open>addWorker\<close> wrote it: the new record is its last one, with status
  \<^verbatim>\<open>setting-up\<close>, and \<open>nextPortOffset\<close> is one more than before.
\<close>

theorem failed_spawn_leaves_record:
  "persists env \<and> \<not> succeeds env \<longrightarrow>
     fst (spawnSingleWorker env url t options b file) = Exited
     \<and> workers (loadState (fst (snd (spawnSingleWorker env url t options b file))))
         = workers (loadState file) @ [newWorker env url t options file]
     \<and> status (newWorker env url t options file) = SettingUp
     \<and> nextPortOffset (loadState (fst (snd (spawnSingleWorker env url t options b file))))
         = nextPortOffset (loadState file) + 1"
  using spawnSingleWorker_orphan [of env url t options b "file"] status_newWorker by blast

text \<open>
  Claim C2, as stated, fails: when \<^verbatim>\<open>openWorkerTab\<close> throws in the first spawn on a fresh
  registry, the process exits and the one record of the registry has status
  \<^verbatim>\<open>setting-up\<close>, not \<^verbatim>\<open>failed\<close>.
\<close>

theorem orphaned_setting_up:
  "fst (spawnSingleWorker envTabFails repoA ''Fix login'' optionsA True Missing) = Exited
   \<and> map status (workers (loadState (fst (snd
         (spawnSingleWorker envTabFails repoA ''Fix login'' optionsA True Missing)))))
       = [SettingUp]"
  using spawnSingleWorker_orphan [OF envTabFails_orphans,
      of repoA "''Fix login''" optionsA True Missing]
  by (simp add: status_newWorker)

theorem failed_spawn_leaves_record_witness:
  "persists envTabFails
   \<and> fst (spawnSingleWorker envTabFails repoA ''Fix login'' optionsA True Missing) = Exited
   \<and> workers (loadState (fst (snd
         (spawnSingleWorker envTabFails repoA ''Fix login'' optionsA True Missing))))
       = [newWorker envTabFails repoA ''Fix login'' optionsA Missing]
   \<and> status (newWorker envTabFails repoA ''Fix login'' optionsA Missing) = SettingUp"
  using failed_spawn_leaves_record [of envTabFails repoA "''Fix login''" optionsA True Missing]
    envTabFails_orphans
  by simp

section \<open>The options of spawn\<close>







section \<open>Closing the terminal session\<close>

lemma deleteThrows_send [simp]: "deleteThrows (env\<lparr>sendThrows := b\<rparr>) = deleteThrows env"
  by (simp add: deleteThrows_def)

lemma deleteDirectory_send [simp]:
  "deleteDirectory (env\<lparr>sendThrows := b\<rparr>) w = deleteDirectory env w"
  by (simp add: deleteDirectory_def)








section \<open>Cleaning up all workers\<close>

lemma listedNames_lines:
  "listedNames (map (\<lambda>w. LogWorker (name w) (branch w)) ws @ [LogRunWithForce]) = map name ws"
  by (induction ws) simp_all

lemma cleanupAll_dry_run:
  "fst (cleanupAll envs False file) = Returned
   \<and> fst (snd (cleanupAll envs False file)) = file
   \<and> listedNames (snd (snd (cleanupAll envs False file))) = map name (getAllWorkers file)
   \<and> list_all isLog (snd (snd (cleanupAll envs False file)))"
  by (simp add: cleanupAll_def Let_def listedNames_lines list_all_iff)

lemma length_failing_from: "length (failing_from envs i ws) \<le> length ws"
  by (induction ws arbitrary: i) (auto simp: le_SucI)

lemma uniqueIds_first:
  assumes "uniqueIds (pre @ w # rest)"
  shows "\<forall>x \<in> set pre. \<not> matches (id_w w) x"
proof
  fix x assume x: "x \<in> set pre"
  from assms have d: "distinct (map id_w (pre @ w # rest))"
    and u: "\<forall>a \<in> set (pre @ w # rest). \<forall>b \<in> set (pre @ w # rest). name b = id_w a \<longrightarrow> b = a"
    by (simp_all add: uniqueIds_def)
  from d x have i: "id_w x \<noteq> id_w w" by (auto simp: image_iff)
  from i x have wn: "w \<notin> set pre" using d by (auto simp: image_iff)
  have "name x \<noteq> id_w w"
  proof
    assume "name x = id_w w"
    with u x have "x = w" by auto
    with x wn show False by simp
  qed
  with i show "\<not> matches (id_w w) x" by (simp add: matches_def)
qed

lemma uniqueIds_drop: "uniqueIds (pre @ w # rest) \<Longrightarrow> uniqueIds (pre @ rest)"
  by (auto simp: uniqueIds_def)

lemma cleanupAll_from_result:
  "workers (loadState file) = pre @ ws \<Longrightarrow> uniqueIds (pre @ ws) \<Longrightarrow>
   workers (loadState (fst (cleanupAll_from envs i ws file c f)))
     = pre @ failing_from envs i ws
   \<and> fst (snd (cleanupAll_from envs i ws file c f))
       = c + (length ws - length (failing_from envs i ws))
   \<and> fst (snd (snd (cleanupAll_from envs i ws file c f)))
       = f + length (failing_from envs i ws)"
proof (induction ws arbitrary: i "file" c f pre)
  case Nil
  then show ?case by simp
next
  case (Cons w rest)
  show ?case
  proof (cases "deleteThrows (envs i)")
    case True
    have w1: "workers (loadState file) = (pre @ [w]) @ rest" using Cons.prems(1) by simp
    have u1: "uniqueIds ((pre @ [w]) @ rest)" using Cons.prems(2) by simp
    from Cons.IH [OF w1 u1, of "Suc i" c "f + 1"] True
    show ?thesis unfolding cleanupAll_from_step by simp
  next
    case False
    have m: "matches (id_w w) w" by (simp add: matches_def)
    from removeWorker_first [OF Cons.prems(1) uniqueIds_first [OF Cons.prems(2)] m]
    have r: "snd (removeWorker (id_w w) file) = Stored ((loadState file)\<lparr>workers := pre @ rest\<rparr>)"
      by simp
    have w1: "workers (loadState (snd (removeWorker (id_w w) file))) = pre @ rest"
      by (simp add: r)
    have u1: "uniqueIds (pre @ rest)" using Cons.prems(2) by (rule uniqueIds_drop)
    have l: "length (failing_from envs (Suc i) rest) \<le> length rest"
      by (rule length_failing_from)
    from Cons.IH [OF w1 u1, of "Suc i" "c + 1" f] False l
    show ?thesis unfolding cleanupAll_from_step by (simp add: Suc_diff_le)
  qed
qed

lemma cleanupAll_force:
  assumes "getAllWorkers file \<noteq> []"
  shows "cleanupAll envs True file =
    (Returned,
     clearItermWindowId (fst (cleanupAll_from envs 0 (getAllWorkers file) file 0 0)),
     snd (snd (snd (cleanupAll_from envs 0 (getAllWorkers file) file 0 0)))
       @ [if fst (snd (snd (cleanupAll_from envs 0 (getAllWorkers file) file 0 0))) > 0
          then LogCleanedFailed (fst (snd (cleanupAll_from envs 0 (getAllWorkers file) file 0 0)))
                 (fst (snd (snd (cleanupAll_from envs 0 (getAllWorkers file) file 0 0))))
          else LogCleaned (fst (snd (cleanupAll_from envs 0 (getAllWorkers file) file 0 0)))])"
  using assms by (simp add: cleanupAll_def Let_def split: prod.splits)

text \<open>
  Claim C5. Without \<^verbatim>\<open>force\<close>, \<^verbatim>\<open>cleanupAll\<close> leaves the registry file as it is, only
  prints, and the names on the lines it prints are those of the workers, in order. With
  \<^verbatim>\<open>force\<close> on an empty registry there is nothing to process and it returns at once; on
  a non-empty registry it returns and the shared-window handle is undefined
  afterwards, whichever deletions throw; when the registry identifies its records
  unambiguously, the workers left are exactly those whose own directory deletion threw,
  and the final line reports the number of the others as cleaned and their number as
  failed.
\<close>

theorem cleanupAll_dry_run_and_force:
  "fst (cleanupAll envs False file) = Returned
   \<and> fst (snd (cleanupAll envs False file)) = file
   \<and> listedNames (snd (snd (cleanupAll envs False file))) = map name (getAllWorkers file)
   \<and> list_all isLog (snd (snd (cleanupAll envs False file)))
   \<and> (getAllWorkers file = [] \<longrightarrow>
        cleanupAll envs True file = (Returned, file, [LogNoWorkers]))
   \<and> (getAllWorkers file \<noteq> [] \<longrightarrow>
        fst (cleanupAll envs True file) = Returned
        \<and> itermWindowId (loadState (fst (snd (cleanupAll envs True file)))) = None)
   \<and> (getAllWorkers file \<noteq> [] \<and> uniqueIds (getAllWorkers file) \<longrightarrow>
        workers (loadState (fst (snd (cleanupAll envs True file))))
          = failing_from envs 0 (getAllWorkers file)
        \<and> last (snd (snd (cleanupAll envs True file)))
          = (if failing_from envs 0 (getAllWorkers file) = []
             then LogCleaned (length (getAllWorkers file))
             else LogCleanedFailed
                    (length (getAllWorkers file) - length (failing_from envs 0 (getAllWorkers file)))
                    (length (failing_from envs 0 (getAllWorkers file)))))"
proof -
  let ?ws = "getAllWorkers file"
  let ?R = "cleanupAll_from envs 0 ?ws file 0 0"
  have force1: "fst (cleanupAll envs True file) = Returned
        \<and> itermWindowId (loadState (fst (snd (cleanupAll envs True file)))) = None"
    if "?ws \<noteq> []"
    using cleanupAll_force [OF that, of envs] by (simp add: loadState_clear)
  have force2: "workers (loadState (fst (snd (cleanupAll envs True file))))
          = failing_from envs 0 ?ws
        \<and> last (snd (snd (cleanupAll envs True file)))
          = (if failing_from envs 0 ?ws = []
             then LogCleaned (length ?ws)
             else LogCleanedFailed (length ?ws - length (failing_from envs 0 ?ws))
                    (length (failing_from envs 0 ?ws)))"
    if ne: "?ws \<noteq> []" and u: "uniqueIds ?ws"
  proof -
    have w0: "workers (loadState file) = [] @ ?ws" by (simp add: getAllWorkers_def)
    have u0: "uniqueIds ([] @ ?ws)" using u by simp
    from cleanupAll_from_result [OF w0 u0, of envs 0 0 0]
    have r: "workers (loadState (fst ?R)) = failing_from envs 0 ?ws"
      "fst (snd ?R) = length ?ws - length (failing_from envs 0 ?ws)"
      "fst (snd (snd ?R)) = length (failing_from envs 0 ?ws)"
      by simp_all
    show ?thesis using cleanupAll_force [OF ne, of envs] r
      by (simp add: loadState_clear)
  qed
  have empty: "cleanupAll envs True file = (Returned, file, [LogNoWorkers])" if "?ws = []"
    using that by (simp add: cleanupAll_def)
  from cleanupAll_dry_run [of envs "file"] empty force1 force2 show ?thesis by blast
qed

theorem cleanupAll_dry_run_and_force_witness:
  "getAllWorkers registryABC \<noteq> []
   \<and> uniqueIds (getAllWorkers registryABC)
   \<and> fst (snd (cleanupAll cenvsSecondFails False registryABC)) = registryABC
   \<and> listedNames (snd (snd (cleanupAll cenvsSecondFails False registryABC)))
       = [''swift-fox'', ''brave-owl'', ''calm-lynx'']
   \<and> workers (loadState (fst (snd (cleanupAll cenvsSecondFails True registryABC)))) = [workerB]
   \<and> itermWindowId (loadState (fst (snd (cleanupAll cenvsSecondFails True registryABC)))) = None
   \<and> last (snd (snd (cleanupAll cenvsSecondFails True registryABC))) = LogCleanedFailed 2 1"
proof -
  have g: "getAllWorkers registryABC = [workerA, workerB, workerC]"
    by (simp add: getAllWorkers_def registryABC_def)
  have h1: "getAllWorkers registryABC \<noteq> []" by (simp add: g)
  have h2: "uniqueIds (getAllWorkers registryABC)"
    unfolding g by (simp add: uniqueIds_def workerA_def workerB_def workerC_def)
  have f: "failing_from cenvsSecondFails 0 (getAllWorkers registryABC) = [workerB]"
    unfolding g
    by (simp add: cenvsSecondFails_def deleteThrows_def cenvFails_def cenvOk_def)
  have n: "map name (getAllWorkers registryABC) = [''swift-fox'', ''brave-owl'', ''calm-lynx'']"
    unfolding g by (simp add: workerA_def workerB_def workerC_def)
  from cleanupAll_dry_run_and_force [of cenvsSecondFails registryABC] h1 h2
  show ?thesis unfolding f n by (simp add: g)
qed

end
